theory Spec2Isabelle
  imports Complex_Main "HOL-Library.Word" "HOL-Library.Log_Nat"
begin

section \<open>The Celestron mount driver (src/libs/OpenLiDAR/mount/Celestron.cpp)\<close>

text \<open>
  Conventions of the embedding.
  \<^item> A C \<^verbatim>\<open>char\<close> is a \<open>byte\<close> (an 8-bit word), a C \<^verbatim>\<open>int\<close> is an \<open>int\<close>; the casts
    \<^verbatim>\<open>(char)x\<close> are \<open>of_int x\<close>, which keeps the low eight bits.
  \<^item> A C \<^verbatim>\<open>double\<close> is an IEEE 754 binary64 number, held in a \<open>real\<close>. Every arithmetic
    operation of the source on doubles is the exact operation followed by \<open>binary64\<close>,
    the rounding to the nearest binary64 number, a tie going to the even significand:
    the default rounding mode, each operation rounded once to double precision (no
    extended precision, no fused multiply-add). Infinities and NaN are not modelled:
    \<open>binary64\<close> has no largest exponent, so it follows the code only where no operation
    overflows, and the theorems on the angle codec bound their inputs.
  \<^item> The operating system and the serial line are a \<open>world\<close>: the file descriptors
    the next calls of \<^verbatim>\<open>open\<close> return, the counts the next calls of \<^verbatim>\<open>write\<close> return, what
    the line delivers in answer to each command written, and the log of the system calls
    made so far. Text printed to the console is not modelled.
  \<^item> A local array that the source leaves uninitialised is a parameter of the operation
    that declares it.
\<close>

subsection \<open>Constants\<close>

type_synonym byte = "8 word"

definition MAX_RESP_SIZE :: nat where
  "MAX_RESP_SIZE = 20"

definition TIMEOUT :: int where
  "TIMEOUT = 5"

definition CELESTRON_DEV_RA :: int where
  "CELESTRON_DEV_RA = 0x10"

definition CELESTRON_DEV_DEC :: int where
  "CELESTRON_DEV_DEC = 0x11"

subsection \<open>The serial line and the system calls\<close>

text \<open>
  One \<open>rx_event\<close> is the outcome of one turn of the loop of \<^verbatim>\<open>readn\<close>: \<^verbatim>\<open>select\<close> times
  out (returns 0) or fails (returns -1), or it reports data and \<^verbatim>\<open>read\<close> then fails
  (returns -1), meets the end of the file (returns 0), or finds the given bytes waiting.
\<close>

datatype rx_event =
    Rx_timeout
  | Rx_select_error
  | Rx_read_error
  | Rx_eof
  | Rx_data "byte list"

datatype syscall =
    Sys_open string
  | Sys_configure int
  | Sys_close int
  | Sys_tcflush int
  | Sys_write int "byte list"
  | Sys_select int int
  | Sys_read int int
  | Sys_usleep nat

record world =
  opens :: "int list"
  writes :: "int list"
  replies :: "rx_event list list"
  trace :: "syscall list"

definition log_calls :: "syscall list \<Rightarrow> world \<Rightarrow> world" where
  "log_calls cs w = w\<lparr>trace := trace w @ cs\<rparr>"

text \<open>The line's answer to the next command, and the world once it is consumed. A line
  with no answer left is silent.\<close>

definition next_reply :: "world \<Rightarrow> rx_event list" where
  "next_reply w = (case replies w of [] \<Rightarrow> [] | r # rs \<Rightarrow> r)"

definition drop_reply :: "world \<Rightarrow> world" where
  "drop_reply w = w\<lparr>replies := (case replies w of [] \<Rightarrow> [] | r # rs \<Rightarrow> rs)\<rparr>"

subsection \<open>Transport: writen, telstat, read, readn\<close>

text \<open>
  \<^verbatim>\<open>writen\<close>: \<open>ptr\<close> is the bytes not written yet, so \<open>nleft\<close> is its length. The loop runs
  while \<open>nleft > 0\<close> and leaves when \<^verbatim>\<open>write\<close> returns a count that is not positive. The
  count of each call comes from the world and is never more than was asked; with no
  count left, \<^verbatim>\<open>write\<close> takes all the bytes. The result is the number of bytes written
  (\<^verbatim>\<open>_nbytes - nleft\<close>), the counts left and the calls made.
\<close>

fun writen :: "int \<Rightarrow> byte list \<Rightarrow> int list \<Rightarrow> int \<times> int list \<times> syscall list" where
  "writen fd ptr [] =
     (if length ptr > 0 then (int (length ptr), [], [Sys_write fd ptr]) else (0, [], []))"
| "writen fd ptr (k # ks) =
     (if length ptr > 0 then
        (if min k (int (length ptr)) \<le> 0 then (0, ks, [Sys_write fd ptr])
         else
           (let r = writen fd (drop (nat k) ptr) ks
            in (min k (int (length ptr)) + fst r, fst (snd r), Sys_write fd ptr # snd (snd r))))
      else (0, k # ks, []))"

text \<open>\<^verbatim>\<open>telstat\<close> returns what \<^verbatim>\<open>select\<close> returns; a silent line times out.\<close>

fun telstat :: "rx_event list \<Rightarrow> int" where
  "telstat [] = 0"
| "telstat (Rx_timeout # es) = 0"
| "telstat (Rx_select_error # es) = - 1"
| "telstat (e # es) = 1"

text \<open>\<^verbatim>\<open>read(fd, ptr, nleft)\<close>: the count it returns, never more than \<open>nleft\<close>.\<close>

fun read_count :: "rx_event list \<Rightarrow> int \<Rightarrow> int" where
  "read_count (Rx_data bs # es) nleft = min (int (length bs)) nleft"
| "read_count (Rx_read_error # es) nleft = - 1"
| "read_count es nleft = 0"

fun read_bytes :: "rx_event list \<Rightarrow> int \<Rightarrow> byte list" where
  "read_bytes (Rx_data bs # es) nleft = take (nat nleft) bs"
| "read_bytes es nleft = []"

text \<open>
  \<^verbatim>\<open>readn\<close>: the loop runs while \<open>nleft > 0\<close>, leaves at a non-positive status or count,
  and otherwise stores the bytes and goes on with the next event. The result is the
  bytes stored, in order (their number is the \<^verbatim>\<open>_nbytes - nleft\<close> the source returns),
  and the system calls made.
\<close>

fun readn :: "int \<Rightarrow> rx_event list \<Rightarrow> int \<Rightarrow> int \<Rightarrow> byte list \<times> syscall list" where
  "readn fd [] nleft sec =
     (if nleft > 0 then ([], [Sys_select fd sec]) else ([], []))"
| "readn fd (e # es) nleft sec =
     (if nleft > 0 then
        (if telstat (e # es) \<le> 0 then ([], [Sys_select fd sec])
         else if read_count (e # es) nleft \<le> 0
           then ([], [Sys_select fd sec, Sys_read fd nleft])
         else
           (let r = readn fd es (nleft - read_count (e # es) nleft) sec
            in (read_bytes (e # es) nleft @ fst r,
                [Sys_select fd sec, Sys_read fd nleft] @ snd r)))
      else ([], []))"

text \<open>Storing bytes at the start of an array, and one byte at an index. All callers in
  this file pass a \<open>MAX_RESP_SIZE\<close>-byte array and expect at most 18 bytes, so every
  store stays inside it; a store past the end of the array (undefined in C) is
  outside the model, which keeps the array as it is there.\<close>

definition store_bytes :: "byte list \<Rightarrow> byte list \<Rightarrow> byte list" where
  "store_bytes bs resp = take (length resp) bs @ drop (length bs) resp"

definition store_at :: "byte list \<Rightarrow> int \<Rightarrow> byte \<Rightarrow> byte list" where
  "store_at resp i b = (if 0 \<le> i \<and> i < int (length resp) then resp[nat i := b] else resp)"

subsection \<open>Frame codec: send\_command\<close>

record celestron =
  m_fd :: int
  m_connected :: bool

text \<open>
  \<^verbatim>\<open>send_command\<close>: the value returned, the response array and the world. The command is
  the first \<open>_cmd_len\<close> bytes of \<open>_cmd\<close>; the count \<^verbatim>\<open>writen\<close> returns is not looked at.
\<close>

definition send_command ::
  "celestron \<Rightarrow> world \<Rightarrow> byte list \<Rightarrow> int \<Rightarrow> byte list \<Rightarrow> int \<Rightarrow> int \<times> byte list \<times> world" where
  "send_command s w cmd cmd_len resp resp_len =
     (let io =
            (if m_fd s \<noteq> 0 then
               (let wr = writen (m_fd s) (take (nat cmd_len) cmd) (writes w);
                    rd = readn (m_fd s) (next_reply w) resp_len TIMEOUT
                in (int (length (fst rd)),
                    store_bytes (fst rd) resp,
                    log_calls (Sys_tcflush (m_fd s) # snd (snd wr) @ snd rd)
                      (drop_reply (w\<lparr>writes := fst (snd wr)\<rparr>))))
             else (resp_len, resp, w));
          nbytes = fst io;
          resp1 = fst (snd io);
          w1 = snd (snd io)
      in if nbytes \<noteq> resp_len then (0, resp1, w1)
         else if resp_len = 0 then (1, resp1, w1)
         else (nbytes, store_at resp1 nbytes 0, w1))"

text \<open>What a reply delivers before the line first falls silent or fails: the bytes of
  its leading non-empty data events.\<close>

fun delivered :: "rx_event list \<Rightarrow> byte list" where
  "delivered (Rx_data bs # es) = (if bs = [] then [] else bs @ delivered es)"
| "delivered es = []"

fun select_timeouts :: "syscall list \<Rightarrow> int list" where
  "select_timeouts [] = []"
| "select_timeouts (Sys_select fd sec # cs) = sec # select_timeouts cs"
| "select_timeouts (c # cs) = select_timeouts cs"

subsection \<open>Frame codec: send\_passthrough\<close>

text \<open>\<^verbatim>\<open>memcpy(dst + off, src, n)\<close> on arrays as lists; inside both arrays when
  \<open>off + n \<le> length dst\<close> and \<open>n \<le> length src\<close>.\<close>

definition memcpy_at :: "byte list \<Rightarrow> nat \<Rightarrow> byte list \<Rightarrow> int \<Rightarrow> byte list" where
  "memcpy_at dst off src n = take off dst @ take (nat n) src @ drop (off + nat n) dst"

text \<open>The eight bytes of \<^verbatim>\<open>cmd\<close> when \<^verbatim>\<open>send_passthrough\<close> hands them to
  \<^verbatim>\<open>send_command\<close>: the array starts as zeros, bytes 0, 1, 2, 3 and 7 are assigned in
  the source's order, and the payload is copied to offset 4 last.\<close>

definition passthrough_cmd :: "int \<Rightarrow> int \<Rightarrow> byte list \<Rightarrow> int \<Rightarrow> int \<Rightarrow> byte list" where
  "passthrough_cmd dest cmd_id payload payload_len response_len =
     memcpy_at
       ((replicate 8 0)
          [0 := 0x50,
           1 := of_int (payload_len + 1),
           2 := of_int dest,
           3 := of_int cmd_id,
           7 := of_int response_len])
       4 payload payload_len"

definition send_passthrough ::
  "celestron \<Rightarrow> world \<Rightarrow> int \<Rightarrow> int \<Rightarrow> byte list \<Rightarrow> int \<Rightarrow> byte list \<Rightarrow> int
     \<Rightarrow> int \<times> byte list \<times> world" where
  "send_passthrough s w dest cmd_id payload payload_len response response_len =
     send_command s w (passthrough_cmd dest cmd_id payload payload_len response_len) 8
       response (response_len + 1)"

subsection \<open>Local arrays and C strings\<close>

text \<open>A local \<^verbatim>\<open>char response[MAX_RESP_SIZE]\<close> is not initialised: its bytes are whatever the
  stack holds, given by \<open>junk\<close>.\<close>

definition response_array :: "(nat \<Rightarrow> byte) \<Rightarrow> byte list" where
  "response_array junk = map junk [0..<MAX_RESP_SIZE]"

definition ascii :: "string \<Rightarrow> byte list" where
  "ascii str = map of_char str"

text \<open>The C string an array holds: the bytes before the first NUL.\<close>

definition c_str :: "byte list \<Rightarrow> byte list" where
  "c_str buf = takeWhile (\<lambda>b. b \<noteq> 0) buf"

text \<open>\<^verbatim>\<open>%d\<close> and \<^verbatim>\<open>%02d\<close> of a value that is not negative.\<close>

function dec_digits :: "nat \<Rightarrow> byte list" where
  "dec_digits n =
     (if n < 10 then [of_nat (48 + n)] else dec_digits (n div 10) @ [of_nat (48 + n mod 10)])"
  by pat_completeness auto
termination
  by (relation "measure id") auto

definition fmt_02d :: "nat \<Rightarrow> byte list" where
  "fmt_02d n = (if n < 10 then 0x30 # dec_digits n else dec_digits n)"

text \<open>\<^verbatim>\<open>snprintf(buf, size, ...)\<close> with \<open>size > 0\<close> leaves in \<open>buf\<close> the C string of at most
  \<open>size - 1\<close> characters of the formatted text; with \<open>size = 0\<close> it writes nothing, and
  \<open>buf\<close> keeps the C string it holds. A negative \<^verbatim>\<open>int\<close> passed as the size is outside the
  model (the C library receives a size above \<^verbatim>\<open>INT_MAX\<close>); the model leaves \<open>buf\<close> as it is
  there too.\<close>

definition snprintf :: "byte list \<Rightarrow> int \<Rightarrow> byte list \<Rightarrow> byte list" where
  "snprintf buf sz txt = (if sz \<le> 0 then buf else take (nat (sz - 1)) txt)"

text \<open>\<^verbatim>\<open>%08X\<close>: eight upper-case hexadecimal digits, the highest first.\<close>

definition hex_digit :: "nat \<Rightarrow> byte" where
  "hex_digit n = (if n < 10 then of_nat (48 + n) else of_nat (55 + n))"

definition fmt_08X :: "32 word \<Rightarrow> byte list" where
  "fmt_08X v = map (\<lambda>i. hex_digit (unat (drop_bit (4 * i) v) mod 16)) [7, 6, 5, 4, 3, 2, 1, 0]"

subsection \<open>Session: connection\<close>

text \<open>The constructor sets \<open>m_fd\<close> to 0 and does not set \<open>m_connected\<close>, whose first
  value is therefore a parameter.\<close>

definition Celestron :: "bool \<Rightarrow> celestron" where
  "Celestron c = \<lparr>m_fd = 0, m_connected = c\<rparr>"

text \<open>\<^verbatim>\<open>open\<close> returns the next descriptor the world has, or -1 when it has none.\<close>

definition sys_open :: "string \<Rightarrow> world \<Rightarrow> int \<times> world" where
  "sys_open port w =
     (case opens w of
        [] \<Rightarrow> (- 1, log_calls [Sys_open port] w)
      | fd # fds \<Rightarrow> (fd, log_calls [Sys_open port] (w\<lparr>opens := fds\<rparr>)))"

definition echo :: "celestron \<Rightarrow> world \<Rightarrow> (nat \<Rightarrow> byte) \<Rightarrow> bool \<times> world" where
  "echo s w junk =
     (let r = send_command s w (ascii ''Kx'') 2 (response_array junk) 2
      in if fst r = 0 then (False, snd (snd r))
         else (c_str (fst (snd r)) = ascii ''x#'', snd (snd r)))"

text \<open>\<^verbatim>\<open>checkConnection\<close>: the loop \<^verbatim>\<open>for (i = 0; i < 2; i++)\<close>, counted down.\<close>

fun checkConnection_loop :: "nat \<Rightarrow> celestron \<Rightarrow> world \<Rightarrow> (nat \<Rightarrow> byte) \<Rightarrow> bool \<times> world" where
  "checkConnection_loop 0 s w junk = (False, w)"
| "checkConnection_loop (Suc k) s w junk =
     (let e = echo s w junk
      in if fst e then (True, snd e)
         else checkConnection_loop k s (log_calls [Sys_usleep 50000] (snd e)) junk)"

definition checkConnection :: "celestron \<Rightarrow> world \<Rightarrow> (nat \<Rightarrow> byte) \<Rightarrow> bool \<times> world" where
  "checkConnection s w junk = checkConnection_loop 2 s w junk"

text \<open>\<^verbatim>\<open>connect\<close>: the value returned, the session and the world. The calls that set the
  line's parameters are logged as one \<open>Sys_configure\<close>.\<close>

definition connect ::
  "celestron \<Rightarrow> world \<Rightarrow> string \<Rightarrow> (nat \<Rightarrow> byte) \<Rightarrow> bool \<times> celestron \<times> world" where
  "connect s w port junk =
     (if m_fd s \<noteq> 0 then (False, s, w)
      else
        (let op = sys_open port w;
             s1 = s\<lparr>m_fd := fst op\<rparr>
         in if m_fd s1 = - 1 then (False, s1, snd op)
            else
              (let c = checkConnection s1 (log_calls [Sys_configure (m_fd s1)] (snd op)) junk
               in (fst c, s1\<lparr>m_connected := fst c\<rparr>, snd c))))"

definition disconnect :: "celestron \<Rightarrow> world \<Rightarrow> celestron \<times> world" where
  "disconnect s w =
     (s\<lparr>m_connected := False\<rparr>,
      if m_connected s then log_calls [Sys_close (m_fd s)] w else w)"

subsection \<open>Angle codec\<close>

text \<open>
  Binary64 arithmetic. \<open>expo x\<close> is the exponent of a real \<open>x \<noteq> 0\<close>, the integer \<open>e\<close> with
  \<open>2^e \<le> \<bar>x\<bar> < 2^(e+1)\<close>. The binary64 numbers around \<open>x\<close> are the multiples of
  \<open>2^(e - 52)\<close> (of \<open>2^(-1074)\<close> in the subnormal range), and \<open>binary64 x\<close> is the nearest
  of them, a tie going to the even multiple.
\<close>

definition expo :: "real \<Rightarrow> int" where
  "expo x =
     (if 1 \<le> \<bar>x\<bar> then int (floorlog 2 (nat \<lfloor>\<bar>x\<bar>\<rfloor>)) - 1
      else - int (floorlog 2 (nat (\<lceil>1 / \<bar>x\<bar>\<rceil> - 1))))"

definition ulp_exp :: "real \<Rightarrow> int" where
  "ulp_exp x = max (expo x - 52) (- 1074)"

text \<open>\<^verbatim>\<open>rint\<close> in the default rounding mode: to the nearest integer, a tie to the even
  one.\<close>

definition rint :: "real \<Rightarrow> int" where
  "rint x =
     (if x - of_int \<lfloor>x\<rfloor> < 1 / 2 then \<lfloor>x\<rfloor>
      else if x - of_int \<lfloor>x\<rfloor> > 1 / 2 then \<lfloor>x\<rfloor> + 1
      else if even \<lfloor>x\<rfloor> then \<lfloor>x\<rfloor> else \<lfloor>x\<rfloor> + 1)"

definition binary64 :: "real \<Rightarrow> real" where
  "binary64 x =
     (if x = 0 then 0
      else of_int (rint (x / 2 powi max (expo x - 52) (- 1074)))
           * 2 powi max (expo x - 52) (- 1074))"

text \<open>The casts \<^verbatim>\<open>(uint32_t)x\<close> and \<^verbatim>\<open>(int32_t)x\<close> of a \<^verbatim>\<open>double\<close> drop the fraction (they
  truncate towards zero); they are defined in C when the result fits the type.\<close>

definition c_trunc :: "real \<Rightarrow> int" where
  "c_trunc x = (if x < 0 then \<lceil>x\<rceil> else \<lfloor>x\<rfloor>)"

definition in_int32 :: "int \<Rightarrow> bool" where
  "in_int32 i = (- 2147483648 \<le> i \<and> i \<le> 2147483647)"

text \<open>\<^verbatim>\<open>pnex2dd\<close>: the conversion of \<open>value\<close> to \<^verbatim>\<open>double\<close> is exact, the division and the
  product are rounded.\<close>

definition pnex2dd :: "32 word \<Rightarrow> real" where
  "pnex2dd v = binary64 (360 * binary64 (real (unat v) / 0x100000000))"

text \<open>
  \<^verbatim>\<open>trimDecAngle\<close> and \<^verbatim>\<open>dd2pnex\<close>. Both begin with
  \<^verbatim>\<open>angle = angle - 360*floor(angle/360); if (angle < 0) angle += 360.0;\<close>: the quotient,
  the product with 360 and the difference are rounded one after the other, and so is
  the sum. In \<^verbatim>\<open>dd2pnex\<close> the product \<^verbatim>\<open>angle * 0x100000000\<close> and the quotient by \<open>360.0\<close> are
  rounded, and the cast to \<^verbatim>\<open>uint32_t\<close> drops the fraction; a value of \<open>2^32\<close> or more does
  not fit the type (C leaves the cast undefined there), and the model keeps its low 32
  bits.
\<close>

definition trimDecAngle :: "real \<Rightarrow> real" where
  "trimDecAngle angle =
     (let angle1 = binary64 (angle - binary64 (360 * of_int \<lfloor>binary64 (angle / 360)\<rfloor>));
          angle2 = (if angle1 < 0 then binary64 (angle1 + 360) else angle1)
      in if angle2 > 90 \<and> angle2 \<le> 270 then binary64 (180 - angle2)
         else if angle2 > 270 \<and> angle2 \<le> 360 then binary64 (angle2 - 360)
         else angle2)"

definition dd2pnex :: "real \<Rightarrow> 32 word" where
  "dd2pnex angle =
     (let angle1 = binary64 (angle - binary64 (360 * of_int \<lfloor>binary64 (angle / 360)\<rfloor>));
          angle2 = (if angle1 < 0 then binary64 (angle1 + 360) else angle1)
      in word_of_int (c_trunc (binary64 (binary64 (angle2 * 0x100000000) / 360))))"

text \<open>The value of \<open>angle\<close> after the two statements that \<^verbatim>\<open>trimDecAngle\<close> and \<^verbatim>\<open>dd2pnex\<close>
  begin with: the angle reduced modulo 360, as the source computes it.\<close>

definition mod360 :: "real \<Rightarrow> real" where
  "mod360 angle =
     (let angle1 = binary64 (angle - binary64 (360 * of_int \<lfloor>binary64 (angle / 360)\<rfloor>))
      in if angle1 < 0 then binary64 (angle1 + 360) else angle1)"

text \<open>
  \<^verbatim>\<open>getSexComponents\<close>: the three values stored through \<open>d\<close>, \<open>m\<close> and \<open>s\<close>. The result
  is \<open>None\<close> where C leaves the behaviour undefined: the cast of \<open>fabs(value)\<close> does not
  fit an \<^verbatim>\<open>int32_t\<close>, or \<^verbatim>\<open>*d += 1\<close> overflows. The differences \<^verbatim>\<open>fabs(value) - *d\<close> and
  \<^verbatim>\<open>... - *m\<close> and the two products with \<open>60.0\<close> are each rounded; the casts of the minutes
  and of the rounded seconds always fit, since both lie between 0 and 60.
\<close>

definition getSexComponents :: "real \<Rightarrow> (int \<times> int \<times> int) option" where
  "getSexComponents v =
     (if \<not> in_int32 (c_trunc \<bar>v\<bar>) then None
      else
        (let d0 = c_trunc \<bar>v\<bar>;
             m0 = c_trunc (binary64 (binary64 (\<bar>v\<bar> - of_int d0) * 60));
             s0 = rint (binary64 (binary64 (binary64 (binary64 (\<bar>v\<bar> - of_int d0) * 60)
                                             - of_int m0) * 60));
             s1 = (if s0 = 60 then 0 else s0);
             m1 = (if s0 = 60 then m0 + 1 else m0);
             m2 = (if m1 = 60 then 0 else m1);
             d1 = (if m1 = 60 then d0 + 1 else d0)
         in if \<not> in_int32 d1 then None
            else Some (if v < 0 then d1 * - 1 else d1, m2, s1)))"

subsection \<open>Session: identification\<close>

definition checkAligned :: "celestron \<Rightarrow> world \<Rightarrow> (nat \<Rightarrow> byte) \<Rightarrow> bool \<times> world" where
  "checkAligned s w junk =
     (let r = send_command s w (ascii ''J'') 1 (response_array junk) 2
      in if fst r = 0 then (False, snd (snd r))
         else (fst (snd r) ! 0 = 0x01, snd (snd r)))"

definition hibernate :: "celestron \<Rightarrow> world \<Rightarrow> (nat \<Rightarrow> byte) \<Rightarrow> bool \<times> world" where
  "hibernate s w junk =
     (let r = send_command s w (ascii ''x#'') 2 (response_array junk) 1
      in (fst r \<noteq> 0, snd (snd r)))"

definition wakeup :: "celestron \<Rightarrow> world \<Rightarrow> (nat \<Rightarrow> byte) \<Rightarrow> bool \<times> world" where
  "wakeup s w junk =
     (let r = send_command s w (ascii ''y#'') 2 (response_array junk) 1
      in (fst r \<noteq> 0, snd (snd r)))"

text \<open>\<^verbatim>\<open>getVersion\<close>: the value returned, the C string left in \<open>_version\<close> (the caller's
  \<open>version\<close> when the command fails) and the world. The text printed is not modelled.\<close>

definition getVersion ::
  "celestron \<Rightarrow> world \<Rightarrow> byte list \<Rightarrow> int \<Rightarrow> (nat \<Rightarrow> byte) \<Rightarrow> bool \<times> byte list \<times> world" where
  "getVersion s w version sz junk =
     (let r = send_command s w (ascii ''V'') 1 (response_array junk) 3;
          response = fst (snd r)
      in if fst r = 0 then (False, version, snd (snd r))
         else (True,
               snprintf version sz (dec_digits (unat (response ! 0)) @ ascii ''.''
                                    @ fmt_02d (unat (response ! 1)) @ [0x0A]),
               snd (snd r)))"

definition getVariant ::
  "celestron \<Rightarrow> world \<Rightarrow> byte \<Rightarrow> (nat \<Rightarrow> byte) \<Rightarrow> bool \<times> byte \<times> world" where
  "getVariant s w variant junk =
     (let r = send_command s w (ascii ''v'') 1 (response_array junk) 2
      in if fst r = 0 then (False, variant, snd (snd r))
         else (True, fst (snd r) ! 0, snd (snd r)))"

definition models :: "(nat \<times> string) list" where
  "models =
     [(1, ''GPS Series''), (3, ''i-Series''), (4, ''i-Series SE''), (5, ''CGE''),
      (6, ''Advanced GT''), (7, ''SLT''), (9, ''CPC''), (10, ''GT''), (11, ''4/5 SE''),
      (12, ''6/8 SE''), (13, ''CGE Pro''), (14, ''CGEM DX''), (15, ''LCM''),
      (16, ''Sky Prodigy''), (17, ''CPC Deluxe''), (18, ''GT 16''), (19, ''StarSeeker''),
      (20, ''AVX''), (21, ''Cosmos''), (22, ''Evolution''), (23, ''CGX''), (24, ''CGXL''),
      (25, ''Astrofi''), (26, ''SkyWatcher'')]"

text \<open>\<^verbatim>\<open>getModel\<close>: the value returned, the first \<open>_size\<close> characters \<^verbatim>\<open>strncpy\<close> leaves in
  \<open>_model\<close>, \<open>*_isGem\<close> and the world.\<close>

definition getModel ::
  "celestron \<Rightarrow> world \<Rightarrow> byte list \<Rightarrow> int \<Rightarrow> bool \<Rightarrow> (nat \<Rightarrow> byte)
     \<Rightarrow> bool \<times> byte list \<times> bool \<times> world" where
  "getModel s w model sz isGem junk =
     (let r = send_command s w (ascii ''m'') 1 (response_array junk) 2;
          m = unat (fst (snd r) ! 0)
      in if fst r = 0 then (False, model, isGem, snd (snd r))
         else (True,
               take (nat sz) (ascii (case map_of models m of Some name \<Rightarrow> name
                                     | None \<Rightarrow> ''Unknown'')),
               m \<in> set [5, 6, 13, 14, 20, 0x17, 0x18],
               snd (snd r)))"

text \<open>\<^verbatim>\<open>getDevFirmware\<close>: the value returned, the C string left in \<open>_version\<close> and the
  world.\<close>

definition getDevFirmware ::
  "celestron \<Rightarrow> world \<Rightarrow> int \<Rightarrow> byte list \<Rightarrow> int \<Rightarrow> (nat \<Rightarrow> byte) \<Rightarrow> bool \<times> byte list \<times> world" where
  "getDevFirmware s w dev version sz junk =
     (let r = send_passthrough s w dev 0xfe [] 0 (response_array junk) 2;
          rlen = fst r;
          response = fst (snd r)
      in if rlen = 2
         then (True, snprintf version sz (dec_digits (unat (response ! 0)) @ ascii ''.0'' @ [0x0A]),
               snd (snd r))
         else if rlen = 3
         then (True,
               snprintf version sz (dec_digits (unat (response ! 0)) @ ascii ''.''
                                    @ fmt_02d (unat (response ! 1)) @ [0x0A]),
               snd (snd r))
         else (False, version, snd (snd r)))"

subsection \<open>Session: location, slewing and position\<close>

text \<open>\<^verbatim>\<open>setLocation\<close> is undefined where \<^verbatim>\<open>getSexComponents\<close> is.\<close>

definition setLocation ::
  "celestron \<Rightarrow> world \<Rightarrow> real \<Rightarrow> real \<Rightarrow> (nat \<Rightarrow> byte) \<Rightarrow> (bool \<times> world) option" where
  "setLocation s w longitude latitude junk =
     (case getSexComponents latitude of
        None \<Rightarrow> None
      | Some (lat_d, lat_m, lat_s) \<Rightarrow>
          (case getSexComponents (if longitude > 180 then binary64 (longitude - 360) else longitude) of
             None \<Rightarrow> None
           | Some (long_d, long_m, long_s) \<Rightarrow>
               (let cmd = [0x57, of_int \<bar>lat_d\<bar>, of_int lat_m, of_int lat_s,
                           (if lat_d > 0 then 0 else 1),
                           of_int \<bar>long_d\<bar>, of_int long_m, of_int long_s,
                           (if long_d > 0 then 0 else 1)];
                    r = send_command s w cmd 9 (response_array junk) 1
                in Some (fst r \<noteq> 0, snd (snd r)))))"

text \<open>The commands \<open>r\<close>, \<open>b\<close> and \<open>s\<close>: a letter, eight hexadecimal digits, a comma and
  eight hexadecimal digits; \<^verbatim>\<open>strlen\<close> of them is their length, 18.\<close>

definition coords_cmd :: "byte \<Rightarrow> real \<Rightarrow> real \<Rightarrow> byte list" where
  "coords_cmd letter a b = letter # fmt_08X (dd2pnex a) @ [0x2C] @ fmt_08X (dd2pnex b)"

definition slewRADec :: "celestron \<Rightarrow> world \<Rightarrow> real \<Rightarrow> real \<Rightarrow> (nat \<Rightarrow> byte) \<Rightarrow> bool \<times> world" where
  "slewRADec s w ra dec junk =
     (let cmd = coords_cmd 0x72 (binary64 (ra * 15)) dec;
          r = send_command s w cmd (int (length cmd)) (response_array junk) 1
      in (fst r \<noteq> 0, snd (snd r)))"

definition slewAzAlt :: "celestron \<Rightarrow> world \<Rightarrow> real \<Rightarrow> real \<Rightarrow> (nat \<Rightarrow> byte) \<Rightarrow> bool \<times> world" where
  "slewAzAlt s w az alt junk =
     (let cmd = coords_cmd 0x62 az alt;
          r = send_command s w cmd (int (length cmd)) (response_array junk) 1
      in (fst r \<noteq> 0, snd (snd r)))"

definition sync :: "celestron \<Rightarrow> world \<Rightarrow> real \<Rightarrow> real \<Rightarrow> (nat \<Rightarrow> byte) \<Rightarrow> bool \<times> world" where
  "sync s w ra dec junk =
     (let cmd = coords_cmd 0x73 (binary64 (ra * 15)) dec;
          r = send_command s w cmd (int (length cmd)) (response_array junk) 1
      in (fst r \<noteq> 0, snd (snd r)))"

definition isSlewing :: "celestron \<Rightarrow> world \<Rightarrow> (nat \<Rightarrow> byte) \<Rightarrow> bool \<times> world" where
  "isSlewing s w junk =
     (let r = send_command s w (ascii ''L'') 1 (response_array junk) 2
      in if fst r = 0 then (False, snd (snd r))
         else (fst (snd r) ! 0 \<noteq> 0x30, snd (snd r)))"

text \<open>
  \<^verbatim>\<open>sscanf(response, "%x,%x#", ...)\<close>. The conversion \<^verbatim>\<open>%x\<close> skips white space and reads a
  non-empty run of hexadecimal digits. The model covers the replies of the mount, whose
  fields are eight hexadecimal digits: it does not read the sign and the \<open>0x\<close> prefix
  that the C library accepts as well, and it keeps a value of more than 32 bits modulo
  \<open>2^32\<close>, where the C library is free to do otherwise. A variable whose conversion
  fails keeps its initial value 0.
\<close>

definition hex_val :: "byte \<Rightarrow> nat option" where
  "hex_val c =
     (if 0x30 \<le> c \<and> c \<le> 0x39 then Some (unat c - 0x30)
      else if 0x41 \<le> c \<and> c \<le> 0x46 then Some (unat c - 0x41 + 10)
      else if 0x61 \<le> c \<and> c \<le> 0x66 then Some (unat c - 0x61 + 10)
      else None)"

definition is_space :: "byte \<Rightarrow> bool" where
  "is_space c = (c = 0x20 \<or> (0x09 \<le> c \<and> c \<le> 0x0D))"

fun scan_hex_digits :: "byte list \<Rightarrow> nat \<Rightarrow> nat \<times> byte list" where
  "scan_hex_digits [] acc = (acc, [])"
| "scan_hex_digits (c # cs) acc =
     (case hex_val c of
        None \<Rightarrow> (acc, c # cs)
      | Some d \<Rightarrow> scan_hex_digits cs (16 * acc + d))"

definition scan_x :: "byte list \<Rightarrow> (32 word \<times> byte list) option" where
  "scan_x input =
     (case dropWhile is_space input of
        [] \<Rightarrow> None
      | c # cs \<Rightarrow>
          (if hex_val c = None then None
           else (let r = scan_hex_digits (c # cs) 0 in Some (of_nat (fst r), snd r))))"

definition parseCoordsResponse :: "byte list \<Rightarrow> real \<times> real" where
  "parseCoordsResponse response =
     (case scan_x (c_str response) of
        None \<Rightarrow> (pnex2dd 0, pnex2dd 0)
      | Some (d1_int, rest) \<Rightarrow>
          (case rest of
             [] \<Rightarrow> (pnex2dd d1_int, pnex2dd 0)
           | c # rest1 \<Rightarrow>
               (if c = 0x2C
                then (case scan_x rest1 of
                        None \<Rightarrow> (pnex2dd d1_int, pnex2dd 0)
                      | Some (d2_int, rest2) \<Rightarrow> (pnex2dd d1_int, pnex2dd d2_int))
                else (pnex2dd d1_int, pnex2dd 0))))"

text \<open>\<^verbatim>\<open>getRADec\<close> and \<^verbatim>\<open>getAzAlt\<close>: the value returned, the two coordinates (the caller's
  when the command fails) and the world.\<close>

definition getRADec ::
  "celestron \<Rightarrow> world \<Rightarrow> real \<Rightarrow> real \<Rightarrow> (nat \<Rightarrow> byte) \<Rightarrow> bool \<times> real \<times> real \<times> world" where
  "getRADec s w ra dec junk =
     (let r = send_command s w (ascii ''e'') 1 (response_array junk) 18;
          p = parseCoordsResponse (fst (snd r))
      in if fst r = 0 then (False, ra, dec, snd (snd r))
         else (True, binary64 (fst p / 15), trimDecAngle (snd p), snd (snd r)))"

definition getAzAlt ::
  "celestron \<Rightarrow> world \<Rightarrow> real \<Rightarrow> real \<Rightarrow> (nat \<Rightarrow> byte) \<Rightarrow> bool \<times> real \<times> real \<times> world" where
  "getAzAlt s w az alt junk =
     (let r = send_command s w (ascii ''z'') 1 (response_array junk) 18;
          p = parseCoordsResponse (fst (snd r))
      in if fst r = 0 then (False, az, alt, snd (snd r))
         else (True, fst p, snd p, snd (snd r)))"

text \<open>
  \<^verbatim>\<open>gotoRADec\<close> and \<^verbatim>\<open>gotoAzAlt\<close>. The loop \<^verbatim>\<open>while (isSlewing()) { usleep(1000); getRADec(&ra, &dec); }\<close>
  has no bound, so it is a partial function: \<open>None\<close> is a loop that never ends. Its state
  is the world and the locals \<open>ra\<close> and \<open>dec\<close>, which the source does not initialise
  (\<open>ra0\<close> and \<open>dec0\<close> are what the stack holds). Every call of \<^verbatim>\<open>slewRADec\<close>, \<^verbatim>\<open>isSlewing\<close>
  and \<^verbatim>\<open>getRADec\<close> declares a response array of its own, whose bytes are what the stack
  holds at that moment: \<open>junk k\<close> is the array of the \<open>k\<close>-th call, the slew command being
  call 0.
\<close>

partial_function (option) gotoRADec_loop ::
  "celestron \<Rightarrow> (nat \<Rightarrow> nat \<Rightarrow> byte) \<Rightarrow> nat \<Rightarrow> world \<times> real \<times> real
     \<Rightarrow> (world \<times> real \<times> real) option" where
  "gotoRADec_loop s junk k st =
     (let sl = isSlewing s (fst st) (junk k)
      in if fst sl
         then (let g = getRADec s (log_calls [Sys_usleep 1000] (snd sl))
                         (fst (snd st)) (snd (snd st)) (junk (k + 1))
               in gotoRADec_loop s junk (k + 2)
                    (snd (snd (snd g)), fst (snd g), fst (snd (snd g))))
         else Some (snd sl, snd st))"

definition gotoRADec ::
  "celestron \<Rightarrow> world \<Rightarrow> real \<Rightarrow> real \<Rightarrow> real \<Rightarrow> real \<Rightarrow> (nat \<Rightarrow> nat \<Rightarrow> byte)
     \<Rightarrow> (bool \<times> world) option" where
  "gotoRADec s w ra_target dec_target ra0 dec0 junk =
     (case gotoRADec_loop s junk 1
             (snd (slewRADec s w ra_target dec_target (junk 0)), ra0, dec0) of
        None \<Rightarrow> None
      | Some (w1, ra, dec) \<Rightarrow> Some (ra = ra_target \<and> dec = dec_target, w1))"

partial_function (option) gotoAzAlt_loop ::
  "celestron \<Rightarrow> (nat \<Rightarrow> nat \<Rightarrow> byte) \<Rightarrow> nat \<Rightarrow> world \<times> real \<times> real
     \<Rightarrow> (world \<times> real \<times> real) option" where
  "gotoAzAlt_loop s junk k st =
     (let sl = isSlewing s (fst st) (junk k)
      in if fst sl
         then (let g = getAzAlt s (log_calls [Sys_usleep 1000] (snd sl))
                         (fst (snd st)) (snd (snd st)) (junk (k + 1))
               in gotoAzAlt_loop s junk (k + 2)
                    (snd (snd (snd g)), fst (snd g), fst (snd (snd g))))
         else Some (snd sl, snd st))"

definition gotoAzAlt ::
  "celestron \<Rightarrow> world \<Rightarrow> real \<Rightarrow> real \<Rightarrow> real \<Rightarrow> real \<Rightarrow> (nat \<Rightarrow> nat \<Rightarrow> byte)
     \<Rightarrow> (bool \<times> world) option" where
  "gotoAzAlt s w az_target alt_target az0 alt0 junk =
     (case gotoAzAlt_loop s junk 1
             (snd (slewAzAlt s w az_target alt_target (junk 0)), az0, alt0) of
        None \<Rightarrow> None
      | Some (w1, az, alt) \<Rightarrow> Some (az = az_target \<and> alt = alt_target, w1))"

subsection \<open>Session: motion, tracking and pulse guiding\<close>

text \<open>Modelled from the spec: the enumeration \<^verbatim>\<open>CELESTRON_DIRECTION\<close> is declared in
  \<^verbatim>\<open>Celestron.h\<close>, which is not among the sources. The spec gives it the four values
  North, South, East and West; the source names \<^verbatim>\<open>CELESTRON_N\<close>, \<^verbatim>\<open>CELESTRON_S\<close> and
  \<^verbatim>\<open>CELESTRON_W\<close>. The enumerations \<^verbatim>\<open>CELESTRON_SLEW_RATE\<close> and \<^verbatim>\<open>CELESTRON_TRACK_MODE\<close> of
  the same header are taken by their integer values.\<close>

datatype CELESTRON_DIRECTION = CELESTRON_N | CELESTRON_S | CELESTRON_W | CELESTRON_E

definition move ::
  "celestron \<Rightarrow> world \<Rightarrow> CELESTRON_DIRECTION \<Rightarrow> int \<Rightarrow> (nat \<Rightarrow> byte) \<Rightarrow> bool \<times> world" where
  "move s w dir rate junk =
     (let dev = (if dir = CELESTRON_N \<or> dir = CELESTRON_S
                 then CELESTRON_DEV_DEC else CELESTRON_DEV_RA);
          cmd_id = (if dir = CELESTRON_N \<or> dir = CELESTRON_W then 0x24 else 0x25);
          payload = [of_int (rate + 1)];
          r = send_passthrough s w dev cmd_id payload 1 (response_array junk) 0
      in (fst r \<noteq> 0, snd (snd r)))"

definition stop ::
  "celestron \<Rightarrow> world \<Rightarrow> CELESTRON_DIRECTION \<Rightarrow> (nat \<Rightarrow> byte) \<Rightarrow> bool \<times> world" where
  "stop s w dir junk =
     (let dev = (if dir = CELESTRON_N \<or> dir = CELESTRON_S
                 then CELESTRON_DEV_DEC else CELESTRON_DEV_RA);
          payload = [0];
          r = send_passthrough s w dev 0x24 payload 1 (response_array junk) 0
      in (fst r \<noteq> 0, snd (snd r)))"

definition abort :: "celestron \<Rightarrow> world \<Rightarrow> (nat \<Rightarrow> byte) \<Rightarrow> bool \<times> world" where
  "abort s w junk =
     (let r = send_command s w (ascii ''M'') 1 (response_array junk) 1
      in (fst r \<noteq> 0, snd (snd r)))"

text \<open>\<^verbatim>\<open>getTrackMode\<close>: the value returned, the byte stored as \<open>*_mode\<close> (the caller's \<open>mode\<close>
  when the command fails) and the world.\<close>

definition getTrackMode ::
  "celestron \<Rightarrow> world \<Rightarrow> byte \<Rightarrow> (nat \<Rightarrow> byte) \<Rightarrow> bool \<times> byte \<times> world" where
  "getTrackMode s w mode junk =
     (let r = send_command s w (ascii ''t'') 1 (response_array junk) 2
      in if fst r = 0 then (False, mode, snd (snd r))
         else (True, fst (snd r) ! 0, snd (snd r)))"

definition setTrackMode :: "celestron \<Rightarrow> world \<Rightarrow> int \<Rightarrow> (nat \<Rightarrow> byte) \<Rightarrow> bool \<times> world" where
  "setTrackMode s w mode junk =
     (let cmd = [0x54, of_int mode, 0];
          r = send_command s w cmd 2 (response_array junk) 1
      in (fst r \<noteq> 0, snd (snd r)))"

text \<open>\<^verbatim>\<open>sendPulse\<close> returns the \<^verbatim>\<open>int\<close> of \<^verbatim>\<open>send_passthrough\<close>; the rate is a
  \<^verbatim>\<open>signed char\<close>, whose negation cast back to a \<^verbatim>\<open>char\<close> is the negation of the byte.\<close>

definition sendPulse ::
  "celestron \<Rightarrow> world \<Rightarrow> CELESTRON_DIRECTION \<Rightarrow> byte \<Rightarrow> byte \<Rightarrow> (nat \<Rightarrow> byte) \<Rightarrow> int \<times> world" where
  "sendPulse s w dir rate duration_csec junk =
     (let dev = (if dir = CELESTRON_N \<or> dir = CELESTRON_S
                 then CELESTRON_DEV_DEC else CELESTRON_DEV_RA);
          payload = [if dir = CELESTRON_N \<or> dir = CELESTRON_W then rate else - rate,
                     duration_csec];
          r = send_passthrough s w dev 0x26 payload 2 (response_array junk) 0
      in (fst r, snd (snd r)))"

text \<open>\<^verbatim>\<open>getPulseStatus\<close>: the value returned, \<open>_pulse_state\<close> and the world.\<close>

definition getPulseStatus ::
  "celestron \<Rightarrow> world \<Rightarrow> CELESTRON_DIRECTION \<Rightarrow> bool \<Rightarrow> (nat \<Rightarrow> byte) \<Rightarrow> bool \<times> bool \<times> world" where
  "getPulseStatus s w dir pulse_state junk =
     (let dev = (if dir = CELESTRON_N \<or> dir = CELESTRON_S
                 then CELESTRON_DEV_DEC else CELESTRON_DEV_RA);
          payload = [0, 0];
          r = send_passthrough s w dev 0x27 payload 2 (response_array junk) 1
      in if fst r = 0 then (False, pulse_state, snd (snd r))
         else (True, fst (snd r) ! 0 \<noteq> 0, snd (snd r)))"

section \<open>Properties\<close>

lemma readn_bytes: "fst (readn fd es n sec) = take (nat n) (delivered es)"
proof (induction es arbitrary: n)
  case Nil
  show ?case by simp
next
  case (Cons e es)
  show ?case
  proof (cases e)
    case (Rx_data bs)
    show ?thesis
    proof (cases "n > 0 \<and> bs \<noteq> []")
      case True
      then have "0 < int (length bs)" and "0 < n" by simp_all
      then have pos: "\<not> min (int (length bs)) n \<le> 0" by linarith
      have "take (nat n) bs @ take (nat (n - min (int (length bs)) n)) (delivered es)
            = take (nat n) (bs @ delivered es)"
        by (cases "int (length bs) \<le> n") (simp_all add: min_def nat_diff_distrib)
      then have "take (nat n) bs @ fst (readn fd es (n - min (int (length bs)) n) sec)
            = take (nat n) (bs @ delivered es)"
        by (simp only: Cons.IH)
      with True pos Rx_data show ?thesis
        by (simp add: Let_def del: take_append)
    next
      case False
      with Rx_data show ?thesis by auto
    qed
  qed simp_all
qed

lemma readn_selects: "set (select_timeouts (snd (readn fd es n sec))) \<subseteq> {sec}"
  by (induction es arbitrary: n) (auto simp: Let_def)

subsection \<open>C1: send\_command over an open channel\<close>

text \<open>
  C1. Over an open channel (\<open>m_fd \<noteq> 0\<close>), for a command with expected response length
  \<open>n\<close>: \<^verbatim>\<open>send_command\<close> returns 0 whenever \<^verbatim>\<open>readn\<close> read fewer than \<open>n\<close> bytes, it returns
  a non-zero value exactly when \<open>n\<close> bytes were read, and \<open>n = 0\<close> succeeds with the value
  1 (\<^verbatim>\<open>true\<close>). The bytes read are the first \<open>n\<close> the line delivers before it first falls
  silent, so bytes that arrive after a timeout do not count. The command is written
  after a flush, and every \<^verbatim>\<open>select\<close> waits \<open>TIMEOUT = 5\<close> seconds.
\<close>

theorem send_command_open_channel:
  assumes "m_fd s \<noteq> 0"
  shows "(int (length (fst (readn (m_fd s) (next_reply w) n TIMEOUT))) < n
            \<longrightarrow> fst (send_command s w cmd cmd_len resp n) = 0)
       \<and> ((fst (send_command s w cmd cmd_len resp n) \<noteq> 0)
            = (int (length (fst (readn (m_fd s) (next_reply w) n TIMEOUT))) = n))
       \<and> (n = 0 \<longrightarrow> fst (send_command s w cmd cmd_len resp n) = 1)
       \<and> fst (readn (m_fd s) (next_reply w) n TIMEOUT) = take (nat n) (delivered (next_reply w))
       \<and> trace (snd (snd (send_command s w cmd cmd_len resp n)))
           = trace w @ [Sys_tcflush (m_fd s)]
               @ snd (snd (writen (m_fd s) (take (nat cmd_len) cmd) (writes w)))
               @ snd (readn (m_fd s) (next_reply w) n TIMEOUT)
       \<and> set (select_timeouts (snd (readn (m_fd s) (next_reply w) n TIMEOUT))) \<subseteq> {5}"
proof -
  have sel: "set (select_timeouts (snd (readn (m_fd s) (next_reply w) n TIMEOUT))) \<subseteq> {5}"
    using readn_selects [of "m_fd s" "next_reply w" n TIMEOUT] by (simp add: TIMEOUT_def)
  have tr: "trace (snd (snd (send_command s w cmd cmd_len resp n)))
           = trace w @ [Sys_tcflush (m_fd s)]
               @ snd (snd (writen (m_fd s) (take (nat cmd_len) cmd) (writes w)))
               @ snd (readn (m_fd s) (next_reply w) n TIMEOUT)"
    using assms by (simp add: send_command_def Let_def log_calls_def drop_reply_def)
  have ret: "fst (send_command s w cmd cmd_len resp n)
       = (if int (length (fst (readn (m_fd s) (next_reply w) n TIMEOUT))) \<noteq> n then 0
          else if n = 0 then 1 else n)"
    using assms by (simp add: send_command_def Let_def)
  show ?thesis
    using sel tr ret readn_bytes [of "m_fd s" "next_reply w" n TIMEOUT] by auto
qed

text \<open>At a concrete session on descriptor 3: the reply \<open>x\<close>, a timeout, then \<open>#\<close> fails
  the echo command, the reply \<open>x\<close>, \<open>#\<close> succeeds with 2 (also when \<^verbatim>\<open>write\<close> fails, since
  the count \<^verbatim>\<open>writen\<close> returns is not looked at), and a command that expects no byte succeeds
  with 1.\<close>

theorem send_command_open_channel_witness:
  "m_fd \<lparr>m_fd = 3, m_connected = True\<rparr> \<noteq> 0
   \<and> fst (readn 3 [Rx_data [0x78], Rx_timeout, Rx_data [0x23]] 2 TIMEOUT) = [0x78]
   \<and> fst (send_command \<lparr>m_fd = 3, m_connected = True\<rparr>
        \<lparr>opens = [], writes = [], replies = [[Rx_data [0x78], Rx_timeout, Rx_data [0x23]]], trace = []\<rparr>
        [0x4B, 0x78] 2 (replicate 20 0) 2) = 0
   \<and> fst (send_command \<lparr>m_fd = 3, m_connected = True\<rparr>
        \<lparr>opens = [], writes = [], replies = [[Rx_data [0x78], Rx_data [0x23]]], trace = []\<rparr>
        [0x4B, 0x78] 2 (replicate 20 0) 2) = 2
   \<and> fst (send_command \<lparr>m_fd = 3, m_connected = True\<rparr>
        \<lparr>opens = [], writes = [- 1], replies = [[Rx_data [0x78, 0x23]]], trace = []\<rparr>
        [0x4B, 0x78] 2 (replicate 20 0) 2) = 2
   \<and> fst (send_command \<lparr>m_fd = 3, m_connected = True\<rparr>
        \<lparr>opens = [], writes = [], replies = [], trace = []\<rparr> [0x4D] 1 (replicate 20 0) 0) = 1"
proof -
  let ?s = "\<lparr>m_fd = 3, m_connected = True\<rparr>"
  let ?w1 = "\<lparr>opens = [], writes = [], replies = [[Rx_data [0x78], Rx_timeout, Rx_data [0x23]]], trace = []\<rparr>"
  let ?w2 = "\<lparr>opens = [], writes = [], replies = [[Rx_data [0x78 :: byte], Rx_data [0x23]]], trace = []\<rparr>"
  let ?w3 = "\<lparr>opens = [], writes = [], replies = [], trace = []\<rparr>"
  have fd: "m_fd ?s \<noteq> 0" by simp
  have r1: "fst (readn 3 [Rx_data [0x78], Rx_timeout, Rx_data [0x23]] 2 TIMEOUT) = [0x78]"
    by (simp add: Let_def)
  have a: "fst (send_command ?s ?w1 [0x4B, 0x78] 2 (replicate 20 0) 2) = 0"
    using send_command_open_channel [OF fd, of ?w1 2 "[0x4B, 0x78]" 2 "replicate 20 0"] r1
    by (simp add: next_reply_def)
  have b: "fst (send_command ?s ?w2 [0x4B, 0x78] 2 (replicate 20 0) 2) = 2"
    by (simp add: send_command_def next_reply_def Let_def)
  have b': "fst (send_command ?s
                  \<lparr>opens = [], writes = [- 1], replies = [[Rx_data [0x78, 0x23]]], trace = []\<rparr>
                  [0x4B, 0x78] 2 (replicate 20 0) 2) = 2"
    by (simp add: send_command_def next_reply_def Let_def)
  have c: "fst (send_command ?s ?w3 [0x4D] 1 (replicate 20 0) 0) = 1"
    using send_command_open_channel [OF fd, of ?w3 0 "[0x4D]" 1 "replicate 20 0"]
    by simp
  show ?thesis using fd r1 a b b' c by simp
qed

subsection \<open>C2: the passthrough frame\<close>

lemma passthrough_cmd_layout:
  assumes "n \<le> 3"
  shows "passthrough_cmd dest cmd_id payload (int n) response_len
         = [0x50, of_int (int n + 1), of_int dest, of_int cmd_id] @ take n payload
           @ drop (4 + n) [0, 0, 0, 0, 0, 0, 0, of_int response_len]"
proof -
  have r: "replicate 8 (0 :: byte) = [0, 0, 0, 0, 0, 0, 0, 0]"
    by (simp add: eval_nat_numeral)
  have u: "[0 :: byte, 0, 0, 0, 0, 0, 0, 0]
             [0 := 0x50, 1 := of_int (int n + 1), 2 := of_int dest, 3 := of_int cmd_id,
              7 := of_int response_len]
           = [0x50, of_int (int n + 1), of_int dest, of_int cmd_id, 0, 0, 0, of_int response_len]"
    by (simp add: eval_nat_numeral)
  have f: "4 + n = Suc (Suc (Suc (Suc n)))" by simp
  show ?thesis
    unfolding passthrough_cmd_def memcpy_at_def r u nat_int f by simp
qed

text \<open>
  C2. For a payload of \<open>payload_len \<le> 3\<close> bytes, \<^verbatim>\<open>send_passthrough\<close> builds exactly the
  eight bytes \<open>0x50\<close>, \<open>payload_len + 1\<close>, the destination, the sub-command id, the payload
  bytes, zeros in the payload slots left, and the expected response length (each value
  cast to a \<^verbatim>\<open>char\<close>), and it hands them to \<^verbatim>\<open>send_command\<close> with length 8, asking for
  \<open>response_len + 1\<close> bytes. A one-byte payload to the RA axis with sub-command \<open>0x24\<close>
  and no expected byte is \<open>50 02 10 24 rate 00 00 00\<close>.
\<close>

theorem send_passthrough_frame:
  assumes "0 \<le> payload_len" and "payload_len \<le> 3" and "nat payload_len \<le> length payload"
  shows "passthrough_cmd dest cmd_id payload payload_len response_len
           = [0x50, of_int (payload_len + 1), of_int dest, of_int cmd_id]
             @ take (nat payload_len) payload @ replicate (3 - nat payload_len) 0
             @ [of_int response_len]
       \<and> length (passthrough_cmd dest cmd_id payload payload_len response_len) = 8
       \<and> send_passthrough s w dest cmd_id payload payload_len response response_len
           = send_command s w
               ([0x50, of_int (payload_len + 1), of_int dest, of_int cmd_id]
                @ take (nat payload_len) payload @ replicate (3 - nat payload_len) 0
                @ [of_int response_len])
               8 response (response_len + 1)
       \<and> passthrough_cmd CELESTRON_DEV_RA 0x24 [rate] 1 0
           = [0x50, 0x02, 0x10, 0x24, rate, 0x00, 0x00, 0x00]"
proof -
  define n where "n = nat payload_len"
  have n: "n \<le> 3" "payload_len = int n" "n \<le> length payload"
    using assms by (simp_all add: n_def)
  have "n = 0 \<or> n = 1 \<or> n = 2 \<or> n = 3" using n(1) by arith
  then have d: "drop (4 + n) [0 :: byte, 0, 0, 0, 0, 0, 0, of_int response_len]
                = replicate (3 - n) 0 @ [of_int response_len]"
    by (auto simp: eval_nat_numeral)
  have frame: "passthrough_cmd dest cmd_id payload payload_len response_len
           = [0x50, of_int (payload_len + 1), of_int dest, of_int cmd_id]
             @ take (nat payload_len) payload @ replicate (3 - nat payload_len) 0
             @ [of_int response_len]"
    using passthrough_cmd_layout [OF n(1), of dest cmd_id payload response_len] d n(2)
    by simp
  have len: "length (passthrough_cmd dest cmd_id payload payload_len response_len) = 8"
    unfolding frame using n by (simp add: n_def [symmetric] min_def)
  have del: "send_passthrough s w dest cmd_id payload payload_len response response_len
           = send_command s w
               ([0x50, of_int (payload_len + 1), of_int dest, of_int cmd_id]
                @ take (nat payload_len) payload @ replicate (3 - nat payload_len) 0
                @ [of_int response_len])
               8 response (response_len + 1)"
    unfolding send_passthrough_def frame ..
  have ex: "passthrough_cmd CELESTRON_DEV_RA 0x24 [rate] 1 0
           = [0x50, 0x02, 0x10, 0x24, rate, 0x00, 0x00, 0x00]"
    using passthrough_cmd_layout [of 1 CELESTRON_DEV_RA "0x24" "[rate]" 0]
    by (simp add: CELESTRON_DEV_RA_def)
  show ?thesis using frame len del ex by simp
qed

text \<open>At a two-byte payload to the DEC axis with sub-command \<open>0x26\<close>.\<close>

theorem send_passthrough_frame_witness:
  "(0::int) \<le> 2 \<and> (2::int) \<le> 3 \<and> nat 2 \<le> length [0x9C, 0x32 :: byte]
   \<and> passthrough_cmd CELESTRON_DEV_DEC 0x26 [0x9C, 0x32] 2 0
       = [0x50, 0x03, 0x11, 0x26, 0x9C, 0x32, 0x00, 0x00]
   \<and> send_passthrough \<lparr>m_fd = 3, m_connected = True\<rparr> \<lparr>opens = [], writes = [], replies = [], trace = []\<rparr>
        CELESTRON_DEV_DEC 0x26 [0x9C, 0x32] 2 (replicate 20 0) 0
       = send_command \<lparr>m_fd = 3, m_connected = True\<rparr> \<lparr>opens = [], writes = [], replies = [], trace = []\<rparr>
           [0x50, 0x03, 0x11, 0x26, 0x9C, 0x32, 0x00, 0x00] 8 (replicate 20 0) 1"
proof -
  have h: "(0::int) \<le> 2" "(2::int) \<le> 3" "nat 2 \<le> length [0x9C, 0x32 :: byte]"
    by simp_all
  show ?thesis
    using send_passthrough_frame [OF h, of CELESTRON_DEV_DEC "0x26" 0
        "\<lparr>m_fd = 3, m_connected = True\<rparr>" "\<lparr>opens = [], writes = [], replies = [], trace = []\<rparr>"
        "replicate 20 0" 0]
    by (simp add: CELESTRON_DEV_DEC_def eval_nat_numeral)
qed

subsection \<open>Binary64 rounding\<close>

text \<open>\<open>rint\<close> returns a nearest integer.\<close>

lemma rint_of_int: "rint (of_int k) = k"
  by (simp add: rint_def)

lemma rint_cases:
  "(rint q = \<lfloor>q\<rfloor> \<and> q - of_int \<lfloor>q\<rfloor> \<le> 1 / 2)
   \<or> (rint q = \<lfloor>q\<rfloor> + 1 \<and> 1 / 2 \<le> q - of_int \<lfloor>q\<rfloor>)"
  by (auto simp: rint_def)

lemma rint_nearest: "\<bar>of_int (rint q) - q\<bar> \<le> \<bar>of_int j - q\<bar>"
proof -
  define F :: real where "F = of_int \<lfloor>q\<rfloor>"
  have f: "F \<le> q" "q < F + 1" unfolding F_def by linarith+
  have "j \<le> \<lfloor>q\<rfloor> \<or> \<lfloor>q\<rfloor> + 1 \<le> j" by linarith
  then have j: "of_int j \<le> F \<or> F + 1 \<le> of_int j"
    unfolding F_def by (metis of_int_le_iff of_int_add of_int_1)
  from rint_cases [of q]
  have "(of_int (rint q) = F \<and> q - F \<le> 1 / 2) \<or> (of_int (rint q) = F + 1 \<and> 1 / 2 \<le> q - F)"
    unfolding F_def by auto
  with f j show ?thesis by linarith
qed

lemma rint_below:
  assumes "t < of_int N - 1 / 2"
  shows "rint t \<le> N - 1"
proof -
  have f: "of_int \<lfloor>t\<rfloor> \<le> t" by linarith
  from rint_cases [of t] show ?thesis
  proof
    assume "rint t = \<lfloor>t\<rfloor> \<and> t - of_int \<lfloor>t\<rfloor> \<le> 1 / 2"
    moreover have "\<lfloor>t\<rfloor> < N" using assms by (simp add: floor_less_iff)
    ultimately show ?thesis by simp
  next
    assume a: "rint t = \<lfloor>t\<rfloor> + 1 \<and> 1 / 2 \<le> t - of_int \<lfloor>t\<rfloor>"
    then have "of_int \<lfloor>t\<rfloor> < (of_int N :: real) - 1" using assms by linarith
    then have "of_int \<lfloor>t\<rfloor> < (of_int (N - 1) :: real)" by simp
    then have "\<lfloor>t\<rfloor> < N - 1" by (simp only: of_int_less_iff)
    with a show ?thesis by simp
  qed
qed

lemma rint_range:
  assumes "0 \<le> x" and "x \<le> of_int n"
  shows "0 \<le> rint x" and "rint x \<le> n"
proof -
  have f: "0 \<le> \<lfloor>x\<rfloor>" using assms(1) by simp
  from rint_cases [of x] show "0 \<le> rint x" using f by auto
  show "rint x \<le> n"
  proof (cases "x = of_int n")
    case True
    then show ?thesis by (simp add: rint_of_int)
  next
    case False
    then have "x < of_int n" using assms(2) by simp
    then have "\<lfloor>x\<rfloor> < n" by (simp add: floor_less_iff)
    with rint_cases [of x] show ?thesis by auto
  qed
qed

text \<open>\<open>expo x\<close> is the exponent of \<open>x\<close>, and the only one.\<close>

lemma expo_bounds:
  assumes "x \<noteq> 0"
  shows "2 powi expo x \<le> \<bar>x\<bar>" and "\<bar>x\<bar> < 2 powi (expo x + 1)"
proof -
  show "2 powi expo x \<le> \<bar>x\<bar>"
  proof (cases "1 \<le> \<bar>x\<bar>")
    case True
    define n where "n = nat \<lfloor>\<bar>x\<bar>\<rfloor>"
    have n: "0 < n" "real n \<le> \<bar>x\<bar>" using True by (simp_all add: n_def)
    have L: "0 < floorlog 2 n" using n(1) by (simp add: floorlog_def)
    have e: "expo x = int (floorlog 2 n - 1)"
      using True L by (simp add: expo_def n_def [symmetric] of_nat_diff)
    have "(2::nat) ^ (floorlog 2 n - 1) \<le> n" using floorlog_bounds [of n 2] n(1) by simp
    then have "(2::real) ^ (floorlog 2 n - 1) \<le> real n"
      by (metis of_nat_le_iff of_nat_numeral of_nat_power)
    with n(2) have "(2::real) ^ (floorlog 2 n - 1) \<le> \<bar>x\<bar>" by linarith
    moreover have "(2::real) powi expo x = 2 ^ (floorlog 2 n - 1)" by (simp only: e power_int_of_nat)
    ultimately show ?thesis by (simp only:)
  next
    case False
    define c where "c = \<lceil>1 / \<bar>x\<bar>\<rceil>"
    define n where "n = nat (c - 1)"
    have y: "1 < 1 / \<bar>x\<bar>" using False assms by simp
    then have c: "2 \<le> c" "1 / \<bar>x\<bar> \<le> of_int c" unfolding c_def by linarith+
    then have n: "0 < n" "int n = c - 1" by (simp_all add: n_def)
    have e: "expo x = - int (floorlog 2 n)"
      using False by (simp add: expo_def n_def c_def)
    have "n < 2 ^ floorlog 2 n" using floorlog_bounds [of n 2] n(1) by simp
    then have "int n < 2 ^ floorlog 2 n"
      by (metis of_nat_less_iff of_nat_numeral of_nat_power)
    then have "c \<le> 2 ^ floorlog 2 n" using n(2) by simp
    then have "(of_int c :: real) \<le> 2 ^ floorlog 2 n"
      by (metis of_int_le_iff of_int_numeral of_int_power)
    with c(2) have "1 / \<bar>x\<bar> \<le> 2 ^ floorlog 2 n" by linarith
    then have "1 / 2 ^ floorlog 2 n \<le> \<bar>x\<bar>"
      using assms by (simp add: field_simps)
    moreover have "(2::real) powi expo x = 1 / 2 ^ floorlog 2 n"
      by (simp only: e power_int_minus_divide power_int_of_nat)
    ultimately show ?thesis by (simp only:)
  qed
  show "\<bar>x\<bar> < 2 powi (expo x + 1)"
  proof (cases "1 \<le> \<bar>x\<bar>")
    case True
    define n where "n = nat \<lfloor>\<bar>x\<bar>\<rfloor>"
    have n: "0 < n" "\<bar>x\<bar> < real n + 1" using True unfolding n_def by (simp, linarith)
    have L: "0 < floorlog 2 n" using n(1) by (simp add: floorlog_def)
    have e: "expo x + 1 = int (floorlog 2 n)"
      using True L by (simp add: expo_def n_def [symmetric])
    have "n < 2 ^ floorlog 2 n" using floorlog_bounds [of n 2] n(1) by simp
    then have "n + 1 \<le> 2 ^ floorlog 2 n" by simp
    then have "real (n + 1) \<le> 2 ^ floorlog 2 n"
      by (metis of_nat_le_iff of_nat_numeral of_nat_power)
    then have "real n + 1 \<le> 2 ^ floorlog 2 n"
      by (simp only: of_nat_add of_nat_1)
    with n(2) have "\<bar>x\<bar> < 2 ^ floorlog 2 n" by linarith
    moreover have "(2::real) powi (expo x + 1) = 2 ^ floorlog 2 n"
      by (simp only: e power_int_of_nat)
    ultimately show ?thesis by (simp only:)
  next
    case False
    define c where "c = \<lceil>1 / \<bar>x\<bar>\<rceil>"
    define n where "n = nat (c - 1)"
    have y: "1 < 1 / \<bar>x\<bar>" using False assms by simp
    then have c: "2 \<le> c" "of_int c - 1 < 1 / \<bar>x\<bar>" unfolding c_def by linarith+
    then have n: "0 < n" "int n = c - 1" by (simp_all add: n_def)
    have L: "0 < floorlog 2 n" using n(1) by (simp add: floorlog_def)
    have e: "expo x + 1 = - int (floorlog 2 n - 1)"
      using False L by (simp add: expo_def n_def c_def of_nat_diff)
    have "(2::nat) ^ (floorlog 2 n - 1) \<le> n" using floorlog_bounds [of n 2] n(1) by simp
    then have "(2::real) ^ (floorlog 2 n - 1) \<le> real n"
      by (metis of_nat_le_iff of_nat_numeral of_nat_power)
    moreover have "real n = of_int c - 1" using n(2) by (metis of_int_of_nat_eq of_int_diff of_int_1)
    ultimately have "2 ^ (floorlog 2 n - 1) < 1 / \<bar>x\<bar>" using c(2) by linarith
    then have "\<bar>x\<bar> < 1 / 2 ^ (floorlog 2 n - 1)"
      using assms by (simp add: field_simps)
    moreover have "(2::real) powi (expo x + 1) = 1 / 2 ^ (floorlog 2 n - 1)"
      by (simp only: e power_int_minus_divide power_int_of_nat)
    ultimately show ?thesis by (simp only:)
  qed
qed

lemma powi2_less_iff: "(2::real) powi a < 2 powi b \<longleftrightarrow> a < b"
proof
  assume "(2::real) powi a < 2 powi b"
  then show "a < b"
    using power_int_increasing [of b a "2::real"] by (cases "a < b") auto
next
  assume "a < b"
  then show "(2::real) powi a < 2 powi b"
    by (rule power_int_strict_increasing) simp
qed

lemma powi2_le_iff: "(2::real) powi a \<le> 2 powi b \<longleftrightarrow> a \<le> b"
  using powi2_less_iff [of b a] by (auto simp: not_less [symmetric])

lemma powi2_pos: "0 < (2::real) powi a"
  by simp

lemma powi2_split: "(2::real) powi (a + b) = 2 powi a * 2 powi b"
  by (simp add: power_int_add)

lemma expo_unique:
  assumes "2 powi e \<le> \<bar>x\<bar>" and "\<bar>x\<bar> < 2 powi (e + 1)"
  shows "expo x = e"
proof -
  have "0 < (2::real) powi e" by simp
  with assms(1) have "0 < \<bar>x\<bar>" by linarith
  then have x: "x \<noteq> 0" by simp
  have "(2::real) powi e < 2 powi (expo x + 1)"
    using assms(1) expo_bounds(2) [OF x] by linarith
  moreover have "(2::real) powi expo x < 2 powi (e + 1)"
    using assms(2) expo_bounds(1) [OF x] by linarith
  ultimately show ?thesis by (simp add: powi2_less_iff)
qed

text \<open>
  \<open>binary64\<close> rounds to a multiple of the unit in the last place. A number \<open>m * 2^k\<close> with
  \<open>\<bar>m\<bar> < 2^53\<close> and \<open>k \<ge> -1074\<close> is a binary64 number: it is its own rounding, and every
  rounding has this form. \<open>binary64 x\<close> is as near to \<open>x\<close> as any binary64 number, and
  \<open>binary64\<close> is monotone.
\<close>

lemma binary64_ulp:
  "x \<noteq> 0 \<Longrightarrow> binary64 x = of_int (rint (x / 2 powi ulp_exp x)) * 2 powi ulp_exp x"
  by (simp add: binary64_def ulp_exp_def)

lemma binary64_eval:
  assumes "2 powi e \<le> \<bar>x\<bar>" and "\<bar>x\<bar> < 2 powi (e + 1)" and "- 1022 \<le> e"
  shows "binary64 x = of_int (rint (x / 2 powi (e - 52))) * 2 powi (e - 52)"
proof -
  have "0 < (2::real) powi e" by simp
  with assms(1) have "0 < \<bar>x\<bar>" by linarith
  then have x: "x \<noteq> 0" by simp
  have "ulp_exp x = e - 52"
    using expo_unique [OF assms(1,2)] assms(3) by (simp add: ulp_exp_def)
  with binary64_ulp [OF x] show ?thesis by simp
qed

lemma binary64_zero: "binary64 0 = 0"
  by (simp add: binary64_def)

lemma binary64_representable:
  assumes "\<bar>m\<bar> < 2 ^ 53" and "- 1074 \<le> k"
  shows "binary64 (of_int m * 2 powi k) = of_int m * 2 powi k"
proof (cases "m = 0")
  case True
  then show ?thesis by (simp add: binary64_zero)
next
  case False
  define x :: real where "x = of_int m * 2 powi k"
  have x: "x \<noteq> 0" using False by (simp add: x_def)
  have ax: "\<bar>x\<bar> = of_int \<bar>m\<bar> * 2 powi k" by (simp add: x_def abs_mult)
  have "(of_int \<bar>m\<bar> :: real) < 2 ^ 53"
    using assms(1) by (metis of_int_less_iff of_int_numeral of_int_power)
  then have "\<bar>x\<bar> < 2 ^ 53 * 2 powi k"
    unfolding ax by (simp add: mult_strict_right_mono)
  also have "\<dots> = 2 powi (53 + k)" by (simp add: power_int_add)
  finally have "(2::real) powi expo x < 2 powi (53 + k)"
    using expo_bounds(1) [OF x] by linarith
  then have "expo x - 52 \<le> k" by (simp add: powi2_less_iff)
  then have u: "ulp_exp x \<le> k" using assms(2) by (simp add: ulp_exp_def)
  define d where "d = nat (k - ulp_exp x)"
  have k: "k = ulp_exp x + int d" using u by (simp add: d_def)
  have "(2::real) powi k = 2 powi (ulp_exp x + int d)"
    by (simp only: k [symmetric])
  also have "\<dots> = 2 powi ulp_exp x * 2 ^ d"
    by (simp add: power_int_add)
  finally have "x = of_int m * (2 powi ulp_exp x * 2 ^ d)"
    by (simp only: x_def)
  then have "x / 2 powi ulp_exp x = of_int m * (2 powi ulp_exp x * 2 ^ d) / 2 powi ulp_exp x"
    by (rule arg_cong [where f = "\<lambda>t. t / 2 powi ulp_exp x"])
  also have "\<dots> = of_int m * 2 ^ d" by simp
  also have "\<dots> = of_int (m * 2 ^ d)" by simp
  finally have q: "x / 2 powi ulp_exp x = of_int (m * 2 ^ d)" .
  have "binary64 x = of_int (m * 2 ^ d) * 2 powi ulp_exp x"
    unfolding binary64_ulp [OF x] q rint_of_int ..
  also have "\<dots> = x" using q by (simp add: field_simps)
  finally show ?thesis by (simp add: x_def)
qed

lemma binary64_form:
  "\<exists>m k. \<bar>m\<bar> < 2 ^ 53 \<and> - 1074 \<le> k \<and> binary64 x = of_int m * 2 powi k"
proof (cases "x = 0")
  case True
  then have "\<bar>0::int\<bar> < 2 ^ 53 \<and> - 1074 \<le> (0::int) \<and> binary64 x = of_int 0 * 2 powi 0"
    by (simp add: binary64_zero)
  then show ?thesis by blast
next
  case False
  define u where "u = ulp_exp x"
  define q where "q = x / 2 powi u"
  have u: "- 1074 \<le> u" "expo x - 52 \<le> u" by (simp_all add: u_def ulp_exp_def)
  have "\<bar>x\<bar> < 2 powi (expo x + 1)" by (rule expo_bounds(2) [OF False])
  also have "\<dots> \<le> 2 powi (u + 53)" using u(2) by (simp add: powi2_le_iff)
  also have "\<dots> = 2 ^ 53 * 2 powi u" by (simp add: power_int_add)
  finally have "\<bar>q\<bar> < 2 ^ 53"
    by (simp add: q_def abs_divide field_simps)
  then have "- (2 ^ 53) < q" "q < 2 ^ 53" by (simp_all add: abs_less_iff)
  have r: "\<bar>rint q\<bar> \<le> 2 ^ 53"
  proof -
    have "\<bar>of_int (rint q) - q\<bar> \<le> \<bar>of_int (2 ^ 53) - q\<bar>" by (rule rint_nearest)
    moreover have "\<bar>of_int (rint q) - q\<bar> \<le> \<bar>of_int (- (2 ^ 53)) - q\<bar>" by (rule rint_nearest)
    ultimately have "(of_int (rint q) :: real) \<le> 2 ^ 53" "- (2 ^ 53) \<le> (of_int (rint q) :: real)"
      using \<open>- (2 ^ 53) < q\<close> \<open>q < 2 ^ 53\<close> by (simp_all add: abs_if split: if_splits)
    then have "rint q \<le> 2 ^ 53" "- (2 ^ 53) \<le> rint q"
      by (metis of_int_le_iff of_int_numeral of_int_power of_int_minus)+
    then show ?thesis by simp
  qed
  have b: "binary64 x = of_int (rint q) * 2 powi u"
    using binary64_ulp [OF False] by (simp add: q_def u_def)
  show ?thesis
  proof (cases "\<bar>rint q\<bar> < 2 ^ 53")
    case True
    with u(1) b show ?thesis by blast
  next
    case False
    with r have "\<bar>rint q\<bar> = 2 ^ 53" by simp
    then have "rint q = 2 ^ 52 * 2 \<or> rint q = - (2 ^ 52) * 2" by (auto simp: abs_if split: if_splits)
    then have "binary64 x = of_int (2 ^ 52) * 2 powi (u + 1)
             \<or> binary64 x = of_int (- (2 ^ 52)) * 2 powi (u + 1)"
      unfolding b by (auto simp: power_int_add)
    moreover have "\<bar>2 ^ 52 :: int\<bar> < 2 ^ 53" "\<bar>- (2 ^ 52) :: int\<bar> < 2 ^ 53" by simp_all
    moreover have "- 1074 \<le> u + 1" using u(1) by simp
    ultimately show ?thesis by blast
  qed
qed

lemma binary64_idem: "binary64 (binary64 x) = binary64 x"
proof -
  obtain m k where "\<bar>m\<bar> < 2 ^ 53" "- 1074 \<le> k" "binary64 x = of_int m * 2 powi k"
    using binary64_form [of x] by blast
  then show ?thesis using binary64_representable [of m k] by simp
qed

lemma binary64_nearest_multiple:
  assumes "x \<noteq> 0"
  shows "\<bar>binary64 x - x\<bar> \<le> \<bar>of_int j * 2 powi ulp_exp x - x\<bar>"
proof -
  define u :: real where "u = 2 powi ulp_exp x"
  have u: "0 < u" by (simp add: u_def)
  define q where "q = x / u"
  have x: "x = q * u" using u by (simp add: q_def)
  have "\<bar>of_int (rint q) - q\<bar> * u \<le> \<bar>of_int j - q\<bar> * u"
    using rint_nearest [of q j] u by (simp add: mult_right_mono)
  moreover have "\<bar>of_int (rint q) - q\<bar> * u = \<bar>of_int (rint q) * u - q * u\<bar>"
    using u by (simp add: left_diff_distrib [symmetric] abs_mult)
  moreover have "\<bar>of_int j - q\<bar> * u = \<bar>of_int j * u - q * u\<bar>"
    using u by (simp add: left_diff_distrib [symmetric] abs_mult)
  ultimately have "\<bar>of_int (rint q) * u - x\<bar> \<le> \<bar>of_int j * u - x\<bar>"
    by (simp only: x [symmetric])
  then show ?thesis
    by (simp only: binary64_ulp [OF assms] q_def u_def)
qed

lemma binary64_nearest:
  assumes "binary64 r = r"
  shows "\<bar>binary64 x - x\<bar> \<le> \<bar>r - x\<bar>"
proof (cases "x = 0")
  case True
  then show ?thesis by (simp add: binary64_zero)
next
  case False
  obtain m k where mk: "\<bar>m\<bar> < 2 ^ 53" "- 1074 \<le> k" "r = of_int m * 2 powi k"
    using binary64_form [of r] assms by auto
  define u where "u = ulp_exp x"
  show ?thesis
  proof (cases "u \<le> k")
    case True
    define d where "d = nat (k - u)"
    have "(2::real) powi k = 2 powi (u + int d)" using True by (simp add: d_def)
    also have "\<dots> = 2 ^ d * 2 powi u" by (simp add: power_int_add)
    finally have "r = of_int (m * 2 ^ d) * 2 powi u" by (simp add: mk(3))
    then show ?thesis
      using binary64_nearest_multiple [OF False, of "m * 2 ^ d"] by (simp only: u_def)
  next
    case False
    then have k: "k + 53 \<le> expo x" "u = expo x - 52"
      using mk(2) by (simp_all add: u_def ulp_exp_def max_def split: if_splits)
    have "(of_int \<bar>m\<bar> :: real) < 2 ^ 53"
      using mk(1) by (metis of_int_less_iff of_int_numeral of_int_power)
    then have "\<bar>r\<bar> < 2 ^ 53 * 2 powi k"
      by (simp add: mk(3) abs_mult mult_strict_right_mono)
    also have "\<dots> = 2 powi (k + 53)" by (simp add: power_int_add)
    also have "\<dots> \<le> 2 powi expo x" using k(1) by (simp add: powi2_le_iff)
    finally have r: "\<bar>r\<bar> < 2 powi expo x" .
    have e: "2 powi expo x \<le> \<bar>x\<bar>" by (rule expo_bounds(1) [OF \<open>x \<noteq> 0\<close>])
    have p: "(2::real) powi expo x = of_int (2 ^ 52) * 2 powi ulp_exp x"
    proof -
      have "(2::real) powi expo x = 2 powi (52 + u)" by (simp add: k(2))
      also have "\<dots> = 2 ^ 52 * 2 powi u" by (simp add: power_int_add)
      finally show ?thesis by (simp add: u_def)
    qed
    show ?thesis
    proof (cases "0 < x")
      case True
      have "\<bar>binary64 x - x\<bar> \<le> \<bar>of_int (2 ^ 52) * 2 powi ulp_exp x - x\<bar>"
        by (rule binary64_nearest_multiple [OF \<open>x \<noteq> 0\<close>])
      then have "\<bar>binary64 x - x\<bar> \<le> \<bar>2 powi expo x - x\<bar>" by (simp only: p)
      with r e True show ?thesis by linarith
    next
      case False
      have "\<bar>binary64 x - x\<bar> \<le> \<bar>of_int (- (2 ^ 52)) * 2 powi ulp_exp x - x\<bar>"
        by (rule binary64_nearest_multiple [OF \<open>x \<noteq> 0\<close>])
      moreover have "of_int (- (2 ^ 52)) * 2 powi ulp_exp x = - ((2::real) powi expo x)"
        by (simp add: p)
      ultimately have "\<bar>binary64 x - x\<bar> \<le> \<bar>- (2 powi expo x) - x\<bar>" by (simp only:)
      with r e False show ?thesis by linarith
    qed
  qed
qed

lemma binary64_mono:
  assumes "x \<le> y"
  shows "binary64 x \<le> binary64 y"
proof (rule ccontr)
  assume "\<not> binary64 x \<le> binary64 y"
  then have lt: "binary64 y < binary64 x" by simp
  have "\<bar>binary64 x - x\<bar> \<le> \<bar>binary64 y - x\<bar>"
    by (rule binary64_nearest) (rule binary64_idem)
  moreover have "\<bar>binary64 y - y\<bar> \<le> \<bar>binary64 x - y\<bar>"
    by (rule binary64_nearest) (rule binary64_idem)
  ultimately have "x = y" using lt assms by linarith
  with lt show False by simp
qed

lemma binary64_of_int:
  assumes "\<bar>m\<bar> < 2 ^ 53"
  shows "binary64 (of_int m) = of_int m"
  using binary64_representable [OF assms, of 0] by simp

lemma binary64_numeral [simp]:
  "\<bar>numeral n :: int\<bar> < 2 ^ 53 \<Longrightarrow> binary64 (numeral n) = numeral n"
  using binary64_of_int [of "numeral n"] by simp

lemma binary64_neg_numeral [simp]:
  "\<bar>numeral n :: int\<bar> < 2 ^ 53 \<Longrightarrow> binary64 (- numeral n) = - numeral n"
  using binary64_of_int [of "- numeral n"] by simp

lemma binary64_le:
  assumes "x \<le> of_int m" and "\<bar>m\<bar> < 2 ^ 53"
  shows "binary64 x \<le> of_int m"
  using binary64_mono [OF assms(1)] binary64_of_int [OF assms(2)] by simp

lemma binary64_ge:
  assumes "of_int m \<le> x" and "\<bar>m\<bar> < 2 ^ 53"
  shows "of_int m \<le> binary64 x"
  using binary64_mono [OF assms(1)] binary64_of_int [OF assms(2)] by simp

text \<open>The binary64 numbers of magnitude \<open>2^e\<close> and more are multiples of \<open>2^(e - 52)\<close>;
  the magnitude and the fraction of a binary64 number are binary64 numbers, and a
  binary64 number below 1 is at most \<open>1 - 2^(-53)\<close>.\<close>

lemma double_on_grid:
  assumes "binary64 x = x" and "2 powi e \<le> \<bar>x\<bar>" and "- 1022 \<le> e"
  shows "\<exists>j. x = of_int j * 2 powi (e - 52)"
proof -
  have "0 < (2::real) powi e" by simp
  with assms(2) have "0 < \<bar>x\<bar>" by linarith
  then have x: "x \<noteq> 0" by simp
  have "(2::real) powi e < 2 powi (expo x + 1)"
    using assms(2) expo_bounds(2) [OF x] by linarith
  then have "e \<le> expo x" by (simp add: powi2_less_iff)
  then have u: "e - 52 \<le> ulp_exp x" by (simp add: ulp_exp_def)
  define d where "d = nat (ulp_exp x - (e - 52))"
  define j where "j = rint (x / 2 powi ulp_exp x)"
  have "(2::real) powi ulp_exp x = 2 powi (e - 52 + int d)"
    using u by (simp add: d_def)
  also have "\<dots> = 2 ^ d * 2 powi (e - 52)" by (simp add: power_int_add)
  finally have p: "(2::real) powi ulp_exp x = 2 ^ d * 2 powi (e - 52)" .
  have "x = of_int j * 2 powi ulp_exp x"
    using binary64_ulp [OF x] assms(1) by (simp add: j_def)
  then have "x = of_int (j * 2 ^ d) * 2 powi (e - 52)"
    by (simp add: p)
  then show ?thesis by blast
qed

lemma binary64_grid:
  assumes "x = of_int j * 2 powi k" and "\<bar>x\<bar> < 2 powi (k + 53)" and "- 1074 \<le> k"
  shows "binary64 x = x"
proof -
  have "\<bar>x\<bar> = of_int \<bar>j\<bar> * 2 powi k" by (simp add: assms(1) abs_mult)
  moreover have "(2::real) powi (k + 53) = 2 ^ 53 * 2 powi k" by (simp add: power_int_add)
  ultimately have "(of_int \<bar>j\<bar> :: real) < 2 ^ 53" using assms(2) by simp
  then have "\<bar>j\<bar> < 2 ^ 53"
    by (metis of_int_less_iff of_int_numeral of_int_power)
  then show ?thesis
    unfolding assms(1) using assms(3) by (rule binary64_representable)
qed

lemma double_abs:
  assumes "binary64 v = v"
  shows "binary64 \<bar>v\<bar> = \<bar>v\<bar>"
proof -
  obtain m k where mk: "\<bar>m\<bar> < 2 ^ 53" "- 1074 \<le> k" "v = of_int m * 2 powi k"
    using binary64_form [of v] assms by auto
  have "\<bar>v\<bar> = of_int \<bar>m\<bar> * 2 powi k" by (simp add: mk(3) abs_mult)
  moreover have "binary64 (of_int \<bar>m\<bar> * 2 powi k) = of_int \<bar>m\<bar> * 2 powi k"
    by (rule binary64_representable) (use mk in simp_all)
  ultimately show ?thesis by simp
qed

lemma double_frac_exact:
  assumes "binary64 x = x" and "0 \<le> x"
  shows "binary64 (x - of_int \<lfloor>x\<rfloor>) = x - of_int \<lfloor>x\<rfloor>"
proof (cases "x < 1")
  case True
  then have "\<lfloor>x\<rfloor> = 0" using assms(2) by (simp add: floor_eq_iff)
  then show ?thesis using assms(1) by simp
next
  case False
  then have "(2::real) powi 0 \<le> \<bar>x\<bar>" by simp
  then obtain j where j: "x = of_int j * 2 powi (0 - 52)"
    using double_on_grid [OF assms(1), of 0] by auto
  have u: "(2::real) powi (- 52) * 2 ^ 52 = 1"
    by (simp add: power_int_minus)
  have "x - of_int \<lfloor>x\<rfloor> = of_int j * 2 powi (- 52) - of_int \<lfloor>x\<rfloor> * (2 powi (- 52) * 2 ^ 52)"
    using j by (simp only: u) simp
  also have "\<dots> = of_int (j - \<lfloor>x\<rfloor> * 2 ^ 52) * 2 powi (- 52)"
    by (simp add: algebra_simps)
  finally have g: "x - of_int \<lfloor>x\<rfloor> = of_int (j - \<lfloor>x\<rfloor> * 2 ^ 52) * 2 powi (- 52)" .
  have "0 \<le> x - of_int \<lfloor>x\<rfloor>" "x - of_int \<lfloor>x\<rfloor> < 1" by linarith+
  then have "\<bar>x - of_int \<lfloor>x\<rfloor>\<bar> < 2 powi (- 52 + 53)" by simp
  with g show ?thesis by (rule binary64_grid) simp
qed

lemma double_below_1:
  assumes "binary64 f = f" and "0 \<le> f" and "f < 1"
  shows "f \<le> 1 - 1 / 2 ^ 53"
proof (cases "f < 1 / 2")
  case True
  then show ?thesis by simp
next
  case False
  then have "(2::real) powi (- 1) \<le> \<bar>f\<bar>" by simp
  then obtain j where j: "f = of_int j * 2 powi (- 1 - 52)"
    using double_on_grid [OF assms(1), of "- 1"] by auto
  have u: "(2::real) powi (- 1 - 52) = 1 / 2 ^ 53" by (simp add: power_int_minus divide_simps)
  have "of_int j < (2 ^ 53 :: real)" using assms(3) by (simp add: j u divide_simps)
  then have "of_int j < (of_int (2 ^ 53) :: real)" by simp
  then have "j < 2 ^ 53" by (simp only: of_int_less_iff)
  then have "j \<le> 2 ^ 53 - 1" by simp
  then have "(of_int j :: real) \<le> of_int (2 ^ 53 - 1)" by (simp only: of_int_le_iff)
  then have "(of_int j :: real) \<le> 2 ^ 53 - 1" by simp
  then show ?thesis by (simp add: j u divide_simps)
qed

lemma binary64_scale32:
  assumes "binary64 r = r"
  shows "binary64 (r * 2 ^ 32) = r * 2 ^ 32"
proof -
  obtain m k where mk: "\<bar>m\<bar> < 2 ^ 53" "- 1074 \<le> k" "r = of_int m * 2 powi k"
    using binary64_form [of r] assms by auto
  have "r * 2 ^ 32 = of_int m * 2 powi (k + 32)" by (simp add: mk(3) power_int_add)
  moreover have "binary64 (of_int m * 2 powi (k + 32)) = of_int m * 2 powi (k + 32)"
    using mk(1) by (rule binary64_representable) (use mk(2) in simp)
  ultimately show ?thesis by simp
qed

lemma binary64_below_int:
  assumes "1 / 2 \<le> q" and "q < 2 ^ 32" and "2 powi (expo q - 53) < of_int n - q"
  shows "binary64 q < of_int n"
proof -
  define E where "E = expo q"
  have q0: "q \<noteq> 0" using assms(1) by auto
  have b: "2 powi E \<le> q" "q < 2 powi (E + 1)"
    using expo_bounds [OF q0] assms(1) by (simp_all add: E_def)
  have "(2::real) powi (- 1) \<le> q" using assms(1) by simp
  then have "(2::real) powi (- 1) < 2 powi (E + 1)" using b(2) by (rule le_less_trans)
  then have "- 1 < E + 1" by (simp only: powi2_less_iff)
  then have lo: "- 1 \<le> E" by simp
  have "(2::real) powi E < 2 ^ 32" using b(1) assms(2) by (rule le_less_trans)
  also have "(2::real) ^ 32 = 2 powi 32" by simp
  finally have "E < 32" by (simp only: powi2_less_iff)
  then have hi: "E \<le> 31" by simp
  define u :: real where "u = 2 powi (E - 52)"
  have u: "0 < u" by (simp add: u_def)
  have fl: "binary64 q = of_int (rint (q / u)) * u"
    unfolding u_def
    by (rule binary64_eval) (use b lo assms(1) in simp_all)
  define d where "d = nat (52 - E)"
  define N where "N = n * 2 ^ d"
  have "(2::real) powi (E - 52) * 2 ^ d = 2 powi (E - 52 + int d)"
    by (simp add: power_int_add)
  also have "\<dots> = 1" using hi by (simp add: d_def)
  finally have ud: "u * 2 ^ d = 1" by (simp add: u_def)
  have N: "of_int N * u = of_int n"
    using ud by (simp add: N_def algebra_simps)
  have "(2::real) powi (E - 53) = 2 powi (E - 52 + (- 1))" by simp
  also have "\<dots> = u / 2" unfolding u_def by (subst power_int_add) simp_all
  finally have "u / 2 < of_int n - q" using assms(3) by (simp add: E_def)
  then have "q < of_int N * u - u / 2" by (simp add: N)
  then have "q / u < of_int N - 1 / 2"
    using u by (simp add: field_simps)
  then have "rint (q / u) \<le> N - 1" by (rule rint_below)
  then have "(of_int (rint (q / u)) :: real) \<le> of_int (N - 1)" by (simp only: of_int_le_iff)
  then have "of_int (rint (q / u)) * u \<le> of_int (N - 1) * u"
    using u by (simp add: mult_right_mono)
  also have "\<dots> = of_int n - u" using N by (simp add: left_diff_distrib)
  also have "\<dots> < of_int n" using u by simp
  finally show ?thesis by (simp add: fl)
qed

subsection \<open>The reduction modulo 360\<close>

text \<open>For \<open>\<bar>a\<bar> \<le> 2^53\<close> the rounded quotient has the floor of the exact one or the next
  integer, the product with 360 is exact, and the reduced angle lies in \<open>[0, 360]\<close>. A
  binary64 angle in \<open>[0, 360)\<close> is its own reduction.\<close>

lemma floor_binary64_div:
  assumes "\<bar>a\<bar> \<le> 2 ^ 53"
  shows "\<lfloor>binary64 (a / 360)\<rfloor> = \<lfloor>a / 360\<rfloor> \<or> \<lfloor>binary64 (a / 360)\<rfloor> = \<lfloor>a / 360\<rfloor> + 1"
    and "\<bar>\<lfloor>binary64 (a / 360)\<rfloor>\<bar> \<le> 2 ^ 45"
proof -
  define n where "n = \<lfloor>a / 360\<rfloor>"
  have "of_int (- (2 ^ 45) + 1) \<le> a / 360" "a / 360 < of_int (2 ^ 45 - 1)"
    using assms by (simp_all add: abs_le_iff)
  then have n: "- (2 ^ 45) < n" "n < 2 ^ 45 - 1"
    unfolding n_def by (simp_all only: le_floor_iff [symmetric] floor_less_iff [symmetric])
  have nb: "\<bar>n\<bar> < 2 ^ 53" "\<bar>n + 1\<bar> < 2 ^ 53" using n by simp_all
  have "of_int n \<le> a / 360" "a / 360 \<le> of_int (n + 1)" unfolding n_def by linarith+
  then have "of_int n \<le> binary64 (a / 360)" "binary64 (a / 360) \<le> of_int (n + 1)"
    using binary64_ge [OF _ nb(1)] binary64_le [OF _ nb(2)] by blast+
  then have "n \<le> \<lfloor>binary64 (a / 360)\<rfloor>" "\<lfloor>binary64 (a / 360)\<rfloor> \<le> n + 1"
    by (simp_all add: le_floor_iff floor_le_iff)
  then show "\<lfloor>binary64 (a / 360)\<rfloor> = \<lfloor>a / 360\<rfloor> \<or> \<lfloor>binary64 (a / 360)\<rfloor> = \<lfloor>a / 360\<rfloor> + 1"
    "\<bar>\<lfloor>binary64 (a / 360)\<rfloor>\<bar> \<le> 2 ^ 45"
    using n unfolding n_def by linarith+
qed

lemma binary64_360_mult:
  assumes "\<bar>f\<bar> \<le> 2 ^ 45"
  shows "binary64 (360 * of_int f) = 360 * of_int f"
proof -
  have "\<bar>45 * f\<bar> < 2 ^ 53" using assms by simp
  then have "binary64 (of_int (45 * f) * 2 powi 3) = of_int (45 * f) * 2 powi 3"
    by (rule binary64_representable) simp
  then show ?thesis by simp
qed

lemma mod360_range:
  assumes "\<bar>a\<bar> \<le> 2 ^ 53"
  shows "0 \<le> mod360 a" and "mod360 a \<le> 360"
proof -
  define f where "f = \<lfloor>binary64 (a / 360)\<rfloor>"
  define t where "t = a - 360 * of_int f"
  have p: "binary64 (360 * of_int f) = 360 * of_int f"
    unfolding f_def by (rule binary64_360_mult) (rule floor_binary64_div(2) [OF assms])
  have m: "mod360 a = (if binary64 t < 0 then binary64 (binary64 t + 360) else binary64 t)"
    by (simp add: mod360_def Let_def f_def [symmetric] p t_def)
  have fl: "of_int \<lfloor>a / 360\<rfloor> \<le> a / 360" "a / 360 < of_int \<lfloor>a / 360\<rfloor> + 1" by linarith+
  have "f = \<lfloor>a / 360\<rfloor> \<or> f = \<lfloor>a / 360\<rfloor> + 1"
    unfolding f_def by (rule floor_binary64_div(1) [OF assms])
  then have "of_int f = (of_int \<lfloor>a / 360\<rfloor> :: real) \<or> of_int f = (of_int \<lfloor>a / 360\<rfloor> :: real) + 1"
    by auto
  then have t: "- 360 \<le> t" "t \<le> 360"
    using fl unfolding t_def by linarith+
  have b: "- 360 \<le> binary64 t" "binary64 t \<le> 360"
    using binary64_ge [of "- 360" t] binary64_le [of t 360] t by simp_all
  have c: "0 \<le> binary64 (binary64 t + 360)"
    using binary64_ge [of 0 "binary64 t + 360"] b by simp
  have d: "binary64 t < 0 \<Longrightarrow> binary64 (binary64 t + 360) \<le> 360"
    using binary64_le [of "binary64 t + 360" 360] by simp
  show "0 \<le> mod360 a" using b c by (simp add: m)
  show "mod360 a \<le> 360" using b d by (simp add: m)
qed

lemma mod360_double: "binary64 (mod360 a) = mod360 a"
  by (simp add: mod360_def Let_def binary64_idem)

lemma double_below_360:
  assumes "binary64 a = a" and "0 \<le> a" and "a < 360"
  shows "a / 360 \<le> 1 - 1 / 2 ^ 53"
proof (cases "a < 256")
  case True
  then show ?thesis by simp
next
  case False
  then have "(2::real) powi 8 \<le> \<bar>a\<bar>" by simp
  then obtain j where j: "a = of_int j * 2 powi (8 - 52)"
    using double_on_grid [OF assms(1), of 8] by auto
  have u: "(2::real) powi (8 - 52) = 1 / 2 ^ 44" by (simp add: power_int_minus divide_simps)
  have "of_int j < (360 * 2 ^ 44 :: real)" using assms(3) by (simp add: j u divide_simps)
  then have "of_int j < (of_int (360 * 2 ^ 44) :: real)" by simp
  then have "j < 360 * 2 ^ 44" by (simp only: of_int_less_iff)
  then have "j \<le> 360 * 2 ^ 44 - 1" by simp
  then have "(of_int j :: real) \<le> of_int (360 * 2 ^ 44 - 1)" by (simp only: of_int_le_iff)
  then have "(of_int j :: real) \<le> 360 * 2 ^ 44 - 1" by simp
  then have "a \<le> 360 - 1 / 2 ^ 44" by (simp add: j u divide_simps)
  then show ?thesis by simp
qed

lemma mod360_fixed:
  assumes "binary64 a = a" and "0 \<le> a" and "a < 360"
  shows "mod360 a = a"
proof -
  have "\<bar>2 ^ 53 - 1 :: int\<bar> < 2 ^ 53" by simp
  then have "binary64 (of_int (2 ^ 53 - 1) * 2 powi (- 53)) = of_int (2 ^ 53 - 1) * 2 powi (- 53)"
    by (rule binary64_representable) simp
  moreover have "of_int (2 ^ 53 - 1) * 2 powi (- 53) = (1 - 1 / 2 ^ 53 :: real)"
    by (simp add: power_int_minus divide_simps)
  ultimately have p: "binary64 (1 - 1 / 2 ^ 53) = 1 - 1 / 2 ^ 53" by (simp only:)
  have "binary64 (a / 360) \<le> binary64 (1 - 1 / 2 ^ 53)"
    by (rule binary64_mono) (rule double_below_360 [OF assms])
  then have "binary64 (a / 360) \<le> 1 - 1 / 2 ^ 53" by (simp only: p)
  moreover have "1 - 1 / 2 ^ 53 < (1::real)" by simp
  ultimately have hi: "binary64 (a / 360) < 1" by (rule le_less_trans)
  have "of_int 0 \<le> binary64 (a / 360)"
    by (rule binary64_ge) (use assms(2) in simp_all)
  then have "\<lfloor>binary64 (a / 360)\<rfloor> = 0" using hi by (simp add: floor_eq_iff)
  then show ?thesis using assms(1,2) by (simp add: mod360_def Let_def binary64_zero)
qed

text \<open>The reduction reaches 360 itself: at the binary64 number nearest to \<open>-10^(-20)\<close>
  the sum \<^verbatim>\<open>angle + 360.0\<close> rounds to 360. The scaled value is then \<open>2^32\<close>, which the type
  \<^verbatim>\<open>uint32_t\<close> does not hold; the low 32 bits that the model keeps are 0.\<close>

lemma mod360_reaches_360:
  "mod360 (- (6646139978924579 / 664613997892457936451903530140172288)) = 360
   \<and> dd2pnex (- (6646139978924579 / 664613997892457936451903530140172288)) = 0
   \<and> binary64 (- (1 / 100000000000000000000)) = - (6646139978924579 / 664613997892457936451903530140172288)"
proof -
  have u0: "binary64 (- (1 / 100000000000000000000)) = - (6646139978924579 / 664613997892457936451903530140172288)"
    by (rule binary64_eval [where e = "- 67", THEN trans]) (simp_all add: rint_def)
  have u1: "binary64 (- (6646139978924579 / 239261039241284857122685270850462023680)) = - (2363071992506517 / 85070591730234615865843651857942052864)"
    by (rule binary64_eval [where e = "- 75", THEN trans]) (simp_all add: rint_def)
  have u2: "binary64 (239261039241284857122678624710483099101 / 664613997892457936451903530140172288) = 360"
    by (rule binary64_eval [where e = 8, THEN trans]) (simp_all add: rint_def)
  have m: "mod360 (- (6646139978924579 / 664613997892457936451903530140172288)) = 360"
    by (simp add: mod360_def Let_def u1 u2 binary64_zero)
  have d: "dd2pnex (- (6646139978924579 / 664613997892457936451903530140172288)) = 0"
    by (simp add: dd2pnex_def c_trunc_def Let_def u1 u2 binary64_zero)
  from m d u0 show ?thesis by (simp only: simp_thms)
qed

subsection \<open>C3: the fixed-point angle codec\<close>

lemma dd2pnex_mod360:
  "dd2pnex a = word_of_int (c_trunc (binary64 (binary64 (mod360 a * 0x100000000) / 360)))"
  by (simp add: dd2pnex_def mod360_def Let_def)

text \<open>The two rounded operations of the scaling do not change the truncated value: a
  binary64 number \<open>x\<close> below \<open>360 * n\<close> is below it by a multiple of its unit, which keeps
  the rounded quotient \<open>x / 360\<close> below \<open>n\<close>.\<close>

lemma quotient_gap:
  assumes "binary64 x = x" and "0 < x" and "x < 360 * of_int n"
    and "2 powi E \<le> x / 360" and "E \<le> 31"
  shows "2 powi (E - 53) < of_int n - x / 360"
proof -
  obtain m k where mk: "\<bar>m\<bar> < 2 ^ 53" "- 1074 \<le> k" "x = of_int m * 2 powi k"
    using binary64_form [of x] assms(1) by auto
  have mpos: "0 < m"
  proof (rule ccontr)
    assume "\<not> 0 < m"
    then have "(of_int m :: real) \<le> 0" by simp
    then have "of_int m * (2::real) powi k \<le> 0" by (simp add: mult_le_0_iff)
    with assms(2) mk(3) show False by simp
  qed
  have m53: "(of_int m :: real) < 2 ^ 53"
    using mk(1) mpos by (metis abs_of_pos of_int_less_iff of_int_numeral of_int_power)
  show ?thesis
  proof (cases "k \<le> 3")
    case True
    define d where "d = nat (3 - k)"
    have "(2::real) powi k * 2 ^ d = 2 powi (k + int d)" by (simp add: power_int_add)
    also have "\<dots> = 8" using True by (simp add: d_def)
    finally have kd: "(2::real) powi k * 2 ^ d = 8" .
    define z where "z = 45 * 2 ^ d * n - m"
    have "360 * of_int n - x = (45 * (2 powi k * 2 ^ d) * of_int n) - of_int m * 2 powi k"
      by (simp add: kd mk(3))
    also have "\<dots> = of_int z * 2 powi k" by (simp add: z_def algebra_simps)
    finally have zx: "360 * of_int n - x = of_int z * 2 powi k" .
    have "0 < of_int z * (2::real) powi k" using assms(3) zx by simp
    moreover have "0 < (2::real) powi k" by simp
    ultimately have "0 < (of_int z :: real)" by (simp only: zero_less_mult_pos2)
    then have "1 \<le> z" by simp
    then have "(1::real) \<le> of_int z" by simp
    then have "1 * (2::real) powi k \<le> of_int z * 2 powi k"
      by (rule mult_right_mono) simp
    then have "(2::real) powi k \<le> of_int z * 2 powi k" by simp
    then have g: "2 powi k \<le> 360 * of_int n - x" by (simp only: zx)
    have "x < 2 ^ 53 * 2 powi k"
      unfolding mk(3) using m53 by (simp add: mult_strict_right_mono)
    moreover have "360 * 2 powi E \<le> x" using assms(4) by simp
    moreover have "2 ^ 53 * 2 powi k \<le> 2 ^ 53 * (360 * of_int n - x)"
      using g by (simp only: mult_le_cancel_left_pos zero_less_power zero_less_numeral)
    ultimately have "360 * 2 powi E < 2 ^ 53 * (360 * of_int n - x)" by linarith
    moreover have "(2::real) powi (E - 53) = 2 powi E / 2 ^ 53"
      by (simp add: power_int_diff)
    ultimately show ?thesis by (simp add: field_simps)
  next
    case False
    define d where "d = nat (k - 3)"
    have "(2::real) powi k = 2 powi (3 + int d)" using False by (simp add: d_def)
    also have "\<dots> = 8 * 2 ^ d" by (simp add: power_int_add)
    finally have kd: "(2::real) powi k = 8 * 2 ^ d" .
    define z where "z = 45 * n - m * 2 ^ d"
    have zx: "360 * of_int n - x = 8 * of_int z"
      by (simp add: mk(3) kd z_def)
    then have "0 < (of_int z :: real)" using assms(3) by simp
    then have "1 \<le> z" by simp
    then have "(1::real) \<le> of_int z" by simp
    then have g: "8 \<le> 360 * of_int n - x" using zx by simp
    have "(2::real) powi (E - 53) \<le> 2 powi (- 22)"
      using assms(5) by (simp only: powi2_le_iff)
    then have "(2::real) powi (E - 53) \<le> 1 / 4194304" by simp
    with g show ?thesis by (simp add: field_simps)
  qed
qed

lemma floor_quotient:
  assumes "binary64 r = r" and "0 \<le> r" and "r < 360"
  shows "\<lfloor>binary64 (binary64 (r * 2 ^ 32) / 360)\<rfloor> = \<lfloor>r * 2 ^ 32 / 360\<rfloor>"
proof -
  define x where "x = r * 2 ^ 32"
  define q where "q = x / 360"
  have x: "binary64 x = x" unfolding x_def by (rule binary64_scale32 [OF assms(1)])
  have q: "0 \<le> q" "q < 2 ^ 32" using assms(2,3) by (simp_all add: q_def x_def)
  have fq: "0 \<le> \<lfloor>q\<rfloor>" "\<lfloor>q\<rfloor> < 2 ^ 32" using q by (simp_all add: floor_less_iff)
  have "\<bar>\<lfloor>q\<rfloor>\<bar> < 2 ^ 53" using fq by simp
  then have lo: "of_int \<lfloor>q\<rfloor> \<le> binary64 q"
    by (rule binary64_ge [rotated]) simp
  have hi: "binary64 q < of_int (\<lfloor>q\<rfloor> + 1)"
  proof (cases "q < 1 / 2")
    case True
    have "binary64 (of_int 1 * 2 powi (- 1)) = of_int 1 * 2 powi (- 1)"
      by (rule binary64_representable) simp_all
    then have "binary64 (1 / 2) = 1 / 2" by simp
    with binary64_mono [of q "1 / 2"] True have "binary64 q \<le> 1 / 2" by simp
    moreover have "(1::real) \<le> of_int (\<lfloor>q\<rfloor> + 1)" using fq(1) by simp
    ultimately show ?thesis by linarith
  next
    case False
    then have h: "1 / 2 \<le> q" by simp
    have q0: "q \<noteq> 0" using h by auto
    have xp: "0 < x" using h by (simp add: q_def)
    have n: "x < 360 * of_int (\<lfloor>q\<rfloor> + 1)"
    proof -
      have "q < of_int (\<lfloor>q\<rfloor> + 1)" by linarith
      then have "360 * q < 360 * of_int (\<lfloor>q\<rfloor> + 1)" by (simp only: mult_less_cancel_left_pos zero_less_numeral)
      then show ?thesis by (simp only: q_def times_divide_eq_right)
    qed
    have e: "2 powi expo q \<le> x / 360"
      using expo_bounds(1) [OF q0] h by (simp add: q_def)
    have "2 powi expo q \<le> q" using expo_bounds(1) [OF q0] h by simp
    then have "(2::real) powi expo q < 2 ^ 32" using q(2) by (rule le_less_trans)
    also have "(2::real) ^ 32 = 2 powi 32" by simp
    finally have "expo q < 32" by (simp only: powi2_less_iff)
    then have "expo q \<le> 31" by simp
    with x xp n e have "2 powi (expo q - 53) < of_int (\<lfloor>q\<rfloor> + 1) - x / 360"
      by (rule quotient_gap)
    then show ?thesis
      using binary64_below_int [OF h q(2), of "\<lfloor>q\<rfloor> + 1"] by (simp add: q_def)
  qed
  have "\<lfloor>binary64 q\<rfloor> = \<lfloor>q\<rfloor>"
    using lo hi by (simp add: floor_eq_iff)
  then have "\<lfloor>binary64 (binary64 x / 360)\<rfloor> = \<lfloor>x / 360\<rfloor>"
    by (simp only: q_def x)
  then show ?thesis by (simp only: x_def)
qed

lemma dd2pnex_floor:
  assumes "0 \<le> mod360 a" and "mod360 a < 360"
  shows "uint (dd2pnex a) = \<lfloor>mod360 a * 2 ^ 32 / 360\<rfloor>"
proof -
  define r where "r = mod360 a"
  define y where "y = binary64 (binary64 (r * 2 ^ 32) / 360)"
  have r: "binary64 r = r" "0 \<le> r" "r < 360"
    using assms by (simp_all add: r_def mod360_double)
  have fy: "\<lfloor>y\<rfloor> = \<lfloor>r * 2 ^ 32 / 360\<rfloor>"
    unfolding y_def using r by (rule floor_quotient)
  have q: "0 \<le> r * 2 ^ 32 / 360" "r * 2 ^ 32 / 360 < 2 ^ 32" using r(2,3) by simp_all
  then have f: "0 \<le> \<lfloor>r * 2 ^ 32 / 360\<rfloor>" "\<lfloor>r * 2 ^ 32 / 360\<rfloor> < 2 ^ 32"
    by (simp_all add: floor_less_iff)
  have "0 \<le> \<lfloor>y\<rfloor>" using f(1) by (simp only: fy)
  then have "0 \<le> y" by simp
  then have "c_trunc y = \<lfloor>y\<rfloor>" by (simp add: c_trunc_def)
  moreover have "dd2pnex a = word_of_int (c_trunc y)"
    by (simp add: dd2pnex_mod360 y_def r_def)
  ultimately have "dd2pnex a = word_of_int \<lfloor>r * 2 ^ 32 / 360\<rfloor>" by (simp add: fy)
  then have "uint (dd2pnex a) = \<lfloor>r * 2 ^ 32 / 360\<rfloor> mod 2 ^ 32"
    by (simp add: uint_word_of_int)
  with f show ?thesis by (simp add: r_def)
qed

lemma pnex2dd_exact: "pnex2dd raw = real (unat raw) / 2 ^ 32 * 360"
proof -
  define n where "n = uint raw"
  have n: "0 \<le> n" "n < 2 ^ 32"
    using uint_bounded [of raw] by (simp_all add: n_def)
  have rn: "real (unat raw) = of_int n" by (simp add: n_def)
  have "\<bar>n\<bar> < 2 ^ 53" using n by simp
  then have "binary64 (of_int n * 2 powi (- 32)) = of_int n * 2 powi (- 32)"
    by (rule binary64_representable) simp
  then have a: "binary64 (of_int n / 4294967296) = of_int n / 4294967296"
    by (simp add: power_int_minus divide_simps)
  have "\<bar>45 * n\<bar> < 2 ^ 53" using n by simp
  then have "binary64 (of_int (45 * n) * 2 powi (- 29)) = of_int (45 * n) * 2 powi (- 29)"
    by (rule binary64_representable) simp
  moreover have "of_int (45 * n) * 2 powi (- 29) = 360 * (of_int n / 4294967296 :: real)"
    by (simp add: power_int_minus divide_simps)
  ultimately have b: "binary64 (360 * (of_int n / 4294967296)) = 360 * (of_int n / 4294967296)"
    by simp
  show ?thesis unfolding pnex2dd_def rn by (simp only: a b) simp
qed

lemma pnex2dd_range:
  shows "0 \<le> pnex2dd raw" and "pnex2dd raw < 360"
proof -
  have "unat raw < 2 ^ 32" using unsigned_less [of raw, where 'a = nat] by simp
  then have "real (unat raw) < real (2 ^ 32)" by (simp only: of_nat_less_iff)
  moreover have "0 \<le> real (unat raw)" by (rule of_nat_0_le_iff)
  ultimately show "0 \<le> pnex2dd raw" "pnex2dd raw < 360"
    by (simp_all add: pnex2dd_exact)
qed

text \<open>
  C3, as amended. For every angle \<open>a\<close> with \<open>\<bar>a\<bar> \<le> 2^53\<close>, the angle that \<^verbatim>\<open>dd2pnex\<close> reduces
  modulo 360, \<open>mod360 a\<close>, lies in \<open>[0, 360]\<close> (the rounding of the reduction can reach 360
  itself), and where it is below 360 \<^verbatim>\<open>dd2pnex\<close> returns the scaled value
  \<open>mod360 a / 360 * 2^32\<close> with its fraction dropped: the cast truncates, it does not round.
  A binary64 angle in \<open>[0, 360)\<close> is its own reduction. \<^verbatim>\<open>pnex2dd\<close> returns
  \<open>raw / 2^32 * 360\<close> exactly, a value in \<open>[0, 360)\<close>.
\<close>

theorem dd2pnex_truncates:
  assumes "\<bar>a\<bar> \<le> 2 ^ 53"
  shows "0 \<le> mod360 a \<and> mod360 a \<le> 360
       \<and> (mod360 a < 360 \<longrightarrow> uint (dd2pnex a) = \<lfloor>mod360 a * 2 ^ 32 / 360\<rfloor>)
       \<and> (binary64 a = a \<and> 0 \<le> a \<and> a < 360 \<longrightarrow> mod360 a = a)
       \<and> pnex2dd raw = real (unat raw) / 2 ^ 32 * 360
       \<and> 0 \<le> pnex2dd raw
       \<and> pnex2dd raw < 360"
proof -
  have r: "0 \<le> mod360 a" "mod360 a \<le> 360" by (rule mod360_range [OF assms])+
  have p: "0 \<le> pnex2dd raw" "pnex2dd raw < 360"
    by (rule pnex2dd_range(1), rule pnex2dd_range(2))
  show ?thesis
    using r p dd2pnex_floor [of a] mod360_fixed [of a] pnex2dd_exact [of raw] by blast
qed

text \<open>At the binary64 number nearest to \<open>-5.625000000000001\<close>, whose reduced angle is
  \<open>354.375\<close>, and at \<open>354.375\<close> itself.\<close>

theorem dd2pnex_truncates_witness:
  "binary64 (- (5625000000000001 / 1000000000000000)) = - (6333186975989761 / 1125899906842624)
   \<and> \<bar>- (6333186975989761 / 1125899906842624) :: real\<bar> \<le> 2 ^ 53
   \<and> mod360 (- (6333186975989761 / 1125899906842624)) = 2835 / 8
   \<and> mod360 (- (6333186975989761 / 1125899906842624)) < 360
   \<and> uint (dd2pnex (- (6333186975989761 / 1125899906842624))) = 4227858432
   \<and> binary64 (2835 / 8) = 2835 / 8
   \<and> mod360 (2835 / 8) = 2835 / 8
   \<and> uint (dd2pnex (2835 / 8)) = 4227858432
   \<and> pnex2dd 4227858432 = 2835 / 8"
proof -
  have s1: "binary64 (- (6333186975989761 / 405323966463344640)) = - (4503599627370497 / 288230376151711744)"
    by (rule binary64_eval [where e = "- 6", THEN trans]) (simp_all add: rint_def)
  have s2: "binary64 (398990779487354879 / 1125899906842624) = 2835 / 8"
    by (rule binary64_eval [where e = 8, THEN trans]) (simp_all add: rint_def)
  have t1: "binary64 (2835 / 8) = 2835 / 8"
    by (rule binary64_eval [where e = 8, THEN trans]) (simp_all add: rint_def)
  have s0: "binary64 (- (5625000000000001 / 1000000000000000)) = - (6333186975989761 / 1125899906842624)"
    by (rule binary64_eval [where e = 2, THEN trans]) (simp_all add: rint_def)
  have h: "\<bar>- (6333186975989761 / 1125899906842624) :: real\<bar> \<le> 2 ^ 53" by simp
  have m: "mod360 (- (6333186975989761 / 1125899906842624)) = 2835 / 8"
    by (simp add: mod360_def Let_def s1 s2 binary64_zero)
  have a: "uint (dd2pnex (- (6333186975989761 / 1125899906842624))) = 4227858432"
    using dd2pnex_truncates [OF h, of 0] by (simp add: m)
  have h2: "\<bar>2835 / 8 :: real\<bar> \<le> 2 ^ 53" by simp
  have m2: "mod360 (2835 / 8) = 2835 / 8"
    using dd2pnex_truncates [OF h2, of 0] t1 by simp
  have b: "uint (dd2pnex (2835 / 8)) = 4227858432"
    using dd2pnex_truncates [OF h2, of 0] by (simp add: m2)
  have c: "pnex2dd 4227858432 = 2835 / 8"
    using dd2pnex_truncates [OF h2, of 4227858432] by simp
  from s0 h m a t1 m2 b c show ?thesis by (simp only: simp_thms)
qed

text \<open>
  C3 as stated fails: at \<open>a = 135 / 2^30\<close> degrees, a binary64 number that is its own
  reduction, the scaled value is exactly \<open>1.5\<close>, which rounds to 2, and \<^verbatim>\<open>dd2pnex\<close> returns 1.
\<close>

theorem dd2pnex_rounds_counterexample:
  "dd2pnex (135 / 1073741824) = 1
   \<and> binary64 (135 / 1073741824) = 135 / 1073741824
   \<and> mod360 (135 / 1073741824) = 135 / 1073741824
   \<and> round (135 / 1073741824 / 360 * 2 ^ 32 :: real) = 2
   \<and> uint (dd2pnex (135 / 1073741824)) \<noteq> round (mod360 (135 / 1073741824) / 360 * 2 ^ 32)"
proof -
  have s1: "binary64 (3 / 8589934592) = 3 / 8589934592"
    by (rule binary64_eval [where e = "- 32", THEN trans]) (simp_all add: rint_def)
  have s2: "binary64 (135 / 1073741824) = 135 / 1073741824"
    by (rule binary64_eval [where e = "- 23", THEN trans]) (simp_all add: rint_def)
  have s3: "binary64 (3 / 2) = 3 / 2"
    by (rule binary64_eval [where e = 0, THEN trans]) (simp_all add: rint_def)
  have a: "dd2pnex (135 / 1073741824) = 1"
    by (simp add: dd2pnex_def c_trunc_def Let_def s1 s2 s3 binary64_zero)
  have m: "mod360 (135 / 1073741824) = 135 / 1073741824"
    by (simp add: mod360_def Let_def s1 s2 binary64_zero)
  have b: "round (135 / 1073741824 / 360 * 2 ^ 32 :: real) = 2"
    by (simp add: round_def)
  show ?thesis unfolding a m b using s2 by simp
qed

subsection \<open>C4: folding a declination\<close>











subsection \<open>C8: sexagesimal components\<close>

lemma c_trunc_nonneg: "0 \<le> x \<Longrightarrow> c_trunc x = \<lfloor>x\<rfloor>"
  by (simp add: c_trunc_def)

text \<open>The fraction of a binary64 number is below 1 by \<open>2^(-53)\<close> at least, so its rounded
  product with 60 stays below 60; the rounded seconds lie between 0 and 60.\<close>

lemma minutes_range:
  assumes "binary64 f = f" and "0 \<le> f" and "f < 1"
  shows "0 \<le> binary64 (f * 60)" and "binary64 (f * 60) < 60"
proof -
  have s: "binary64 (135107988821114865 / 2251799813685248) = 8444249301319679 / 140737488355328"
    by (rule binary64_eval [where e = 5, THEN trans]) (simp_all add: rint_def)
  have "f * 60 \<le> 135107988821114865 / 2251799813685248"
    using double_below_1 [OF assms] by simp
  then have "binary64 (f * 60) \<le> binary64 (135107988821114865 / 2251799813685248)"
    by (rule binary64_mono)
  then have "binary64 (f * 60) \<le> 8444249301319679 / 140737488355328" by (simp only: s)
  then show "binary64 (f * 60) < 60" by simp
  have "of_int 0 \<le> binary64 (f * 60)"
    by (rule binary64_ge) (use assms(2) in simp_all)
  then show "0 \<le> binary64 (f * 60)" by simp
qed

lemma seconds_range:
  assumes "0 \<le> g"
  shows "0 \<le> rint (binary64 (binary64 (g - of_int \<lfloor>g\<rfloor>) * 60))"
    and "rint (binary64 (binary64 (g - of_int \<lfloor>g\<rfloor>) * 60)) \<le> 60"
proof -
  define h where "h = binary64 (g - of_int \<lfloor>g\<rfloor>)"
  have "of_int 0 \<le> g - of_int \<lfloor>g\<rfloor>" "g - of_int \<lfloor>g\<rfloor> \<le> of_int 1" by simp_all linarith+
  then have "of_int 0 \<le> h" "h \<le> of_int 1"
    unfolding h_def using binary64_ge [of 0 "g - of_int \<lfloor>g\<rfloor>"]
      binary64_le [of "g - of_int \<lfloor>g\<rfloor>" 1] by simp_all
  then have h: "0 \<le> h * 60" "h * 60 \<le> 60" by simp_all
  have "of_int 0 \<le> binary64 (h * 60)"
    by (rule binary64_ge) (use h in simp_all)
  moreover have "binary64 (h * 60) \<le> of_int 60"
    by (rule binary64_le) (use h in simp_all)
  ultimately have "0 \<le> binary64 (h * 60)" "binary64 (h * 60) \<le> of_int 60" by simp_all
  then show "0 \<le> rint (binary64 (binary64 (g - of_int \<lfloor>g\<rfloor>) * 60))"
    "rint (binary64 (binary64 (g - of_int \<lfloor>g\<rfloor>) * 60)) \<le> 60"
    unfolding h_def [symmetric] by (rule rint_range)+
qed

text \<open>
  C8, as amended. For every binary64 input \<open>v\<close> with \<open>\<bar>v\<bar> < 2^31 - 1\<close>, \<^verbatim>\<open>getSexComponents\<close>
  returns components \<open>(d, m, s)\<close>. Let \<open>d0\<close> be the truncated degrees of \<open>\<bar>v\<bar>\<close>, \<open>g\<close> the
  rounded product of the fraction of \<open>\<bar>v\<bar>\<close> with 60, \<open>m0\<close> the truncated minutes \<open>floor g\<close>,
  and \<open>s0\<close> the seconds as the source rounds them: \<^verbatim>\<open>rint\<close> of the rounded product of
  \<open>g - m0\<close> with 60 (the two differences are exact). When \<open>s0 = 60\<close> the seconds are 0
  and the minutes are incremented by one; when the minutes so obtained are 60 the
  minutes are 0 and the degrees are incremented by one. The sign of \<open>v\<close> is applied to
  the degrees only, the minutes and seconds lie in \<open>[0, 60)\<close>, and the carries keep the
  total number of seconds. The binary64 number nearest to \<open>10.999862\<close> yields
  \<open>(11, 0, 0)\<close>.
\<close>

theorem getSexComponents_carries:
  assumes "binary64 v = v" and "\<bar>v\<bar> < 2147483647"
  defines "d0 \<equiv> \<lfloor>\<bar>v\<bar>\<rfloor>"
  defines "g \<equiv> binary64 ((\<bar>v\<bar> - of_int \<lfloor>\<bar>v\<bar>\<rfloor>) * 60)"
  defines "m0 \<equiv> \<lfloor>g\<rfloor>"
  defines "s0 \<equiv> rint (binary64 ((g - of_int \<lfloor>g\<rfloor>) * 60))"
  shows "(\<exists>d m s. getSexComponents v = Some (d, m, s)
           \<and> (s0 = 60 \<longrightarrow> s = 0 \<and> (if m0 + 1 = 60 then m = 0 \<and> \<bar>d\<bar> = d0 + 1
                                       else m = m0 + 1 \<and> \<bar>d\<bar> = d0))
           \<and> (s0 \<noteq> 60 \<longrightarrow> s = s0 \<and> m = m0 \<and> \<bar>d\<bar> = d0)
           \<and> d = (if v < 0 then - \<bar>d\<bar> else \<bar>d\<bar>)
           \<and> 0 \<le> m \<and> m < 60 \<and> 0 \<le> s \<and> s < 60
           \<and> 3600 * \<bar>d\<bar> + 60 * m + s = 3600 * d0 + 60 * m0 + s0)
       \<and> getSexComponents (binary64 (10999862 / 1000000)) = Some (11, 0, 0)"
proof -
  have A: "0 \<le> \<bar>v\<bar>" "binary64 \<bar>v\<bar> = \<bar>v\<bar>"
    using double_abs [OF assms(1)] by simp_all
  have d0: "0 \<le> d0" "d0 \<le> 2147483646"
    using assms(2) by (simp_all add: d0_def floor_less_iff le_floor_iff)
  have f: "0 \<le> \<bar>v\<bar> - of_int \<lfloor>\<bar>v\<bar>\<rfloor>" "\<bar>v\<bar> - of_int \<lfloor>\<bar>v\<bar>\<rfloor> < 1" by linarith+
  have fx: "binary64 (\<bar>v\<bar> - of_int \<lfloor>\<bar>v\<bar>\<rfloor>) = \<bar>v\<bar> - of_int \<lfloor>\<bar>v\<bar>\<rfloor>"
    using A(2) A(1) by (rule double_frac_exact)
  have gr: "0 \<le> g" "g < 60"
    unfolding g_def using fx f by (rule minutes_range)+
  have gd: "binary64 g = g" by (simp add: g_def binary64_idem)
  have gx: "binary64 (g - of_int \<lfloor>g\<rfloor>) = g - of_int \<lfloor>g\<rfloor>"
    using gd gr(1) by (rule double_frac_exact)
  have m0: "0 \<le> m0" "m0 < 60"
    using gr by (simp_all add: m0_def floor_less_iff)
  have s0: "0 \<le> s0" "s0 \<le> 60"
    using seconds_range [OF gr(1)] by (simp_all only: s0_def gx)
  have t1: "c_trunc \<bar>v\<bar> = \<lfloor>\<bar>v\<bar>\<rfloor>"
    using A(1) by (rule c_trunc_nonneg)
  have t2: "c_trunc g = \<lfloor>g\<rfloor>"
    using gr(1) by (rule c_trunc_nonneg)
  have i1: "in_int32 \<lfloor>\<bar>v\<bar>\<rfloor>"
    using d0 by (simp add: in_int32_def d0_def)
  have i2: "in_int32 (if (if s0 = 60 then m0 + 1 else m0) = 60 then d0 + 1 else d0)"
    using d0 by (simp add: in_int32_def)
  have "getSexComponents v =
     (if \<not> in_int32 (if (if s0 = 60 then m0 + 1 else m0) = 60 then d0 + 1 else d0) then None
      else Some (if v < 0 then (if (if s0 = 60 then m0 + 1 else m0) = 60 then d0 + 1 else d0) * - 1
              else (if (if s0 = 60 then m0 + 1 else m0) = 60 then d0 + 1 else d0),
            if (if s0 = 60 then m0 + 1 else m0) = 60 then 0 else (if s0 = 60 then m0 + 1 else m0),
            if s0 = 60 then 0 else s0))"
    unfolding getSexComponents_def Let_def t1 fx g_def [symmetric] t2 gx
    by (simp only: i1 not_True_eq_False if_False s0_def m0_def d0_def)
  then have g: "getSexComponents v =
      Some (if v < 0 then (if (if s0 = 60 then m0 + 1 else m0) = 60 then d0 + 1 else d0) * - 1
              else (if (if s0 = 60 then m0 + 1 else m0) = 60 then d0 + 1 else d0),
            if (if s0 = 60 then m0 + 1 else m0) = 60 then 0 else (if s0 = 60 then m0 + 1 else m0),
            if s0 = 60 then 0 else s0)"
    by (simp only: i2 not_True_eq_False if_False)
  have sv: "binary64 (10999862 / 1000000) = 1548092950135215 / 140737488355328"
    by (rule binary64_eval [where e = 3, THEN trans]) (simp_all add: rint_def)
  have a2: "binary64 (140718066581935 / 140737488355328) = 140718066581935 / 140737488355328"
    by (rule binary64_eval [where e = "- 1", THEN trans]) (simp_all add: rint_def)
  have a3: "binary64 (2110770998729025 / 35184372088832) = 2110770998729025 / 35184372088832"
    by (rule binary64_eval [where e = 5, THEN trans]) (simp_all add: rint_def)
  have a4: "binary64 (34893045487937 / 35184372088832) = 34893045487937 / 35184372088832"
    by (rule binary64_eval [where e = "- 1", THEN trans]) (simp_all add: rint_def)
  have a5: "binary64 (523395682319055 / 8796093022208) = 523395682319055 / 8796093022208"
    by (rule binary64_eval [where e = 5, THEN trans]) (simp_all add: rint_def)
  have "getSexComponents (1548092950135215 / 140737488355328) = Some (11, 0, 0)"
    by (simp add: getSexComponents_def c_trunc_def in_int32_def rint_def Let_def a2 a3 a4 a5)
  then have ex: "getSexComponents (binary64 (10999862 / 1000000)) = Some (11, 0, 0)"
    by (simp only: sv)
  have "\<exists>d m s. getSexComponents v = Some (d, m, s)
           \<and> (s0 = 60 \<longrightarrow> s = 0 \<and> (if m0 + 1 = 60 then m = 0 \<and> \<bar>d\<bar> = d0 + 1
                                       else m = m0 + 1 \<and> \<bar>d\<bar> = d0))
           \<and> (s0 \<noteq> 60 \<longrightarrow> s = s0 \<and> m = m0 \<and> \<bar>d\<bar> = d0)
           \<and> d = (if v < 0 then - \<bar>d\<bar> else \<bar>d\<bar>)
           \<and> 0 \<le> m \<and> m < 60 \<and> 0 \<le> s \<and> s < 60
           \<and> 3600 * \<bar>d\<bar> + 60 * m + s = 3600 * d0 + 60 * m0 + s0"
    unfolding g using d0 m0 s0 by auto
  with ex show ?thesis by (simp only: simp_thms)
qed

text \<open>At \<open>v = -10.999862\<close>, where both carries happen and the sign goes to the degrees; at
  \<open>v = 0x1.0fedcba987654p-5\<close>, whose seconds are rounded to \<open>59.5\<close> by the product and
  to 60 by \<^verbatim>\<open>rint\<close>; and at \<open>v = -10.5\<close>, where no carry happens.\<close>

theorem getSexComponents_carries_witness:
  "binary64 (- (10999862 / 1000000)) = - (1548092950135215 / 140737488355328)
   \<and> binary64 (- (1548092950135215 / 140737488355328)) = - (1548092950135215 / 140737488355328)
   \<and> \<bar>- (1548092950135215 / 140737488355328) :: real\<bar> < 2147483647
   \<and> (\<exists>d m s. getSexComponents (- (1548092950135215 / 140737488355328)) = Some (d, m, s)
         \<and> d = - 11 \<and> m = 0 \<and> s = 0)
   \<and> getSexComponents (- (1548092950135215 / 140737488355328)) = Some (- 11, 0, 0)
   \<and> binary64 (1195955901046165 / 36028797018963968) = 1195955901046165 / 36028797018963968
   \<and> getSexComponents (1195955901046165 / 36028797018963968) = Some (0, 2, 0)
   \<and> getSexComponents (- (21 / 2)) = Some (- 10, 30, 0)"
proof -
  have h1: "binary64 (- (1548092950135215 / 140737488355328)) = - (1548092950135215 / 140737488355328)"
    by (rule binary64_eval [where e = 3, THEN trans]) (simp_all add: rint_def)
  have h2: "\<bar>- (1548092950135215 / 140737488355328) :: real\<bar> < 2147483647" by simp
  have h0: "binary64 (- (10999862 / 1000000)) = - (1548092950135215 / 140737488355328)"
    by (rule binary64_eval [where e = 3, THEN trans]) (simp_all add: rint_def)
  have a2: "binary64 (140718066581935 / 140737488355328) = 140718066581935 / 140737488355328"
    by (rule binary64_eval [where e = "- 1", THEN trans]) (simp_all add: rint_def)
  have a3: "binary64 (2110770998729025 / 35184372088832) = 2110770998729025 / 35184372088832"
    by (rule binary64_eval [where e = 5, THEN trans]) (simp_all add: rint_def)
  have a4: "binary64 (34893045487937 / 35184372088832) = 34893045487937 / 35184372088832"
    by (rule binary64_eval [where e = "- 1", THEN trans]) (simp_all add: rint_def)
  have a5: "binary64 (523395682319055 / 8796093022208) = 523395682319055 / 8796093022208"
    by (rule binary64_eval [where e = 5, THEN trans]) (simp_all add: rint_def)
  have e1: "getSexComponents (- (1548092950135215 / 140737488355328)) = Some (- 11, 0, 0)"
    by (simp add: getSexComponents_def c_trunc_def in_int32_def rint_def Let_def a2 a3 a4 a5)
  have c1: "binary64 (1195955901046165 / 36028797018963968) = 1195955901046165 / 36028797018963968"
    by (rule binary64_eval [where e = "- 5", THEN trans]) (simp_all add: rint_def)
  have c2: "binary64 (17939338515692475 / 9007199254740992) = 4484834628923119 / 2251799813685248"
    by (rule binary64_eval [where e = 0, THEN trans]) (simp_all add: rint_def)
  have c3: "binary64 (2233034815237871 / 2251799813685248) = 2233034815237871 / 2251799813685248"
    by (rule binary64_eval [where e = "- 1", THEN trans]) (simp_all add: rint_def)
  have c4: "binary64 (33495522228568065 / 562949953421312) = 119 / 2"
    by (rule binary64_eval [where e = 5, THEN trans]) (simp_all add: rint_def)
  have e2: "getSexComponents (1195955901046165 / 36028797018963968) = Some (0, 2, 0)"
    by (simp add: getSexComponents_def c_trunc_def in_int32_def rint_def Let_def c1 c2 c3 c4)
  have d1: "binary64 (1 / 2) = 1 / 2"
    by (rule binary64_eval [where e = "- 1", THEN trans]) (simp_all add: rint_def)
  have e3: "getSexComponents (- (21 / 2)) = Some (- 10, 30, 0)"
    by (simp add: getSexComponents_def c_trunc_def in_int32_def rint_def Let_def d1 binary64_zero)
  show ?thesis
    using getSexComponents_carries [OF h1 h2] h0 h1 h2 e1 c1 e2 e3 by simp
qed

text \<open>
  C8 as stated fails at its example: the binary64 number nearest to \<open>10.999861\<close> has
  \<open>59.4996\<close> seconds, which round to 59, so no carry happens and the result is
  \<open>(10, 59, 59)\<close>.
\<close>

theorem getSexComponents_example_counterexample:
  "getSexComponents (binary64 (10999861 / 1000000)) = Some (10, 59, 59)
   \<and> getSexComponents (binary64 (10999861 / 1000000)) \<noteq> Some (11, 0, 0)"
proof -
  have sv: "binary64 (10999861 / 1000000) = 3096185618795453 / 281474976710656"
    by (rule binary64_eval [where e = 3, THEN trans]) (simp_all add: rint_def)
  have b2: "binary64 (281435851688893 / 281474976710656) = 281435851688893 / 281474976710656"
    by (rule binary64_eval [where e = "- 1", THEN trans]) (simp_all add: rint_def)
  have b3: "binary64 (4221537775333395 / 70368744177664) = 4221537775333395 / 70368744177664"
    by (rule binary64_eval [where e = 5, THEN trans]) (simp_all add: rint_def)
  have b4: "binary64 (69781868851219 / 70368744177664) = 69781868851219 / 70368744177664"
    by (rule binary64_eval [where e = "- 1", THEN trans]) (simp_all add: rint_def)
  have b5: "binary64 (1046728032768285 / 17592186044416) = 1046728032768285 / 17592186044416"
    by (rule binary64_eval [where e = 5, THEN trans]) (simp_all add: rint_def)
  have "getSexComponents (3096185618795453 / 281474976710656) = Some (10, 59, 59)"
    by (simp add: getSexComponents_def c_trunc_def in_int32_def rint_def Let_def b2 b3 b4 b5)
  then have e: "getSexComponents (binary64 (10999861 / 1000000)) = Some (10, 59, 59)"
    by (simp only: sv)
  show ?thesis unfolding e by simp
qed

subsection \<open>Response arrays and sessions with no channel\<close>

lemma response_array_cons:
  "response_array junk = junk 0 # junk 1 # junk 2 # junk 3 # map junk [4..<20]"
proof -
  have "[0..<20] = [0..<4] @ [4..<20]"
    using upt_add_eq_append [of 0 4 16] by simp
  moreover have "[0..<4] = [0, 1, 2, 3]" by code_simp
  ultimately show ?thesis
    by (simp add: response_array_def MAX_RESP_SIZE_def)
qed

lemma response_array_length: "length (response_array junk) = 20"
  by (simp add: response_array_def MAX_RESP_SIZE_def)

lemma c_str_Nil: "c_str [] = []"
  by (simp add: c_str_def)

lemma c_str_Cons: "c_str (b # bs) = (if b = 0 then [] else b # c_str bs)"
  by (simp add: c_str_def)

lemma send_command_closed:
  assumes "m_fd s = 0"
  shows "send_command s w cmd cmd_len resp n
           = (if n = 0 then 1 else n, if n = 0 then resp else store_at resp n 0, w)"
  using assms by (simp add: send_command_def Let_def)

lemma send_passthrough_closed:
  assumes "m_fd s = 0"
  shows "send_passthrough s w dest cmd_id payload payload_len resp n
           = (if n + 1 = 0 then 1 else n + 1,
              if n + 1 = 0 then resp else store_at resp (n + 1) 0, w)"
  unfolding send_passthrough_def using send_command_closed [OF assms] by simp

lemma store_at_response_array:
  "store_at (response_array junk) 1 0 = junk 0 # 0 # junk 2 # junk 3 # map junk [4..<20]"
  "store_at (response_array junk) 2 0 = junk 0 # junk 1 # 0 # junk 3 # map junk [4..<20]"
  "store_at (response_array junk) 3 0 = junk 0 # junk 1 # junk 2 # 0 # map junk [4..<20]"
  by (simp_all add: store_at_def response_array_length)
     (simp_all add: response_array_cons eval_nat_numeral)

subsection \<open>C5: the firmware of an axis controller\<close>

lemma response_array_zero: "response_array (\<lambda>i. 0) = replicate 20 0"
  by (simp add: response_array_def MAX_RESP_SIZE_def map_replicate_const)

lemma firmware_frame: "passthrough_cmd dev 0xfe [] 0 2 = [0x50, 0x01, of_int dev, 0xFE, 0, 0, 0, 0x02]"
  using passthrough_cmd_layout [of 0 dev "0xfe" "[]" 2] by simp

lemma send_passthrough_firmware_rlen:
  "fst (send_passthrough s w dev 0xfe [] 0 resp 2) = 0
   \<or> fst (send_passthrough s w dev 0xfe [] 0 resp 2) = 3"
  by (simp add: send_passthrough_def send_command_def Let_def)

lemma getDevFirmware_never_major_0:
  "getDevFirmware s w dev version sz junk =
     (let r = send_passthrough s w dev 0xfe [] 0 (response_array junk) 2
      in if fst r = 3
         then (True,
               snprintf version sz (dec_digits (unat (fst (snd r) ! 0)) @ ascii ''.''
                                    @ fmt_02d (unat (fst (snd r) ! 1)) @ [0x0A]),
               snd (snd r))
         else (False, version, snd (snd r)))"
  using send_passthrough_firmware_rlen [of s w dev "response_array junk"]
  by (auto simp: getDevFirmware_def Let_def)

text \<open>
  C5. The claim: \<^verbatim>\<open>getDevFirmware\<close> succeeds on a 2-byte device response (\<open>major.0\<close>) and on a
  3-byte one (\<open>major.minor\<close>), and fails on every other length. The source has the branch
  \<^verbatim>\<open>case 2\<close> for the first, but \<^verbatim>\<open>send_passthrough\<close> asks \<^verbatim>\<open>send_command\<close> for 3 bytes, and
  \<^verbatim>\<open>send_command\<close> returns 0 unless it read 3: the value 2 is never returned
  (\<open>send_passthrough_firmware_rlen\<close>), and the branch is dead. Over an open channel on
  descriptor 3, the 2-byte response \<open>07 23\<close> makes \<^verbatim>\<open>getDevFirmware\<close> fail after a timeout,
  while the 3-byte response \<open>07 0B 23\<close> gives \<open>7.11\<close>.
\<close>

theorem getDevFirmware_two_byte_response:
  "getDevFirmware \<lparr>m_fd = 3, m_connected = True\<rparr>
     \<lparr>opens = [], writes = [], replies = [[Rx_data [0x07, 0x23]]], trace = []\<rparr>
     CELESTRON_DEV_RA [] 8 (\<lambda>i. 0)
   = (False, [],
      \<lparr>opens = [], writes = [], replies = [],
         trace = [Sys_tcflush 3, Sys_write 3 [0x50, 0x01, 0x10, 0xFE, 0, 0, 0, 0x02],
                  Sys_select 3 5, Sys_read 3 3, Sys_select 3 5]\<rparr>)
   \<and> getDevFirmware \<lparr>m_fd = 3, m_connected = True\<rparr>
     \<lparr>opens = [], writes = [], replies = [[Rx_data [0x07, 0x0B, 0x23]]], trace = []\<rparr>
     CELESTRON_DEV_RA [] 8 (\<lambda>i. 0)
   = (True, ascii ''7.11'' @ [0x0A],
      \<lparr>opens = [], writes = [], replies = [],
         trace = [Sys_tcflush 3, Sys_write 3 [0x50, 0x01, 0x10, 0xFE, 0, 0, 0, 0x02],
                  Sys_select 3 5, Sys_read 3 3]\<rparr>)"
  by (simp add: getDevFirmware_def send_passthrough_def firmware_frame send_command_def
      response_array_zero next_reply_def drop_reply_def log_calls_def TIMEOUT_def
      store_bytes_def store_at_def Let_def CELESTRON_DEV_RA_def snprintf_def ascii_def
      fmt_02d_def)

subsection \<open>C6: move and stop\<close>

lemma axis_frame:
  "passthrough_cmd dest cmd_id [b] 1 0 = [0x50, 0x02, of_int dest, of_int cmd_id, b, 0, 0, 0]"
  using passthrough_cmd_layout [of 1 dest cmd_id "[b]" 0] by simp

text \<open>
  C6, as amended. For every direction, \<^verbatim>\<open>move\<close> and \<^verbatim>\<open>stop\<close> address the DEC axis
  (\<open>0x11\<close>) for North and South and the RA axis (\<open>0x10\<close>) for East and West, each with a
  one-byte payload and no expected response byte (the frame ends in \<open>00\<close> and one byte, the
  terminator, is read). \<^verbatim>\<open>move\<close> sends sub-command \<open>0x24\<close> for North and West and \<open>0x25\<close> for
  South and East, with the payload \<open>rate + 1\<close>; \<^verbatim>\<open>stop\<close> sends sub-command \<open>0x24\<close> with the
  payload 0 for every direction.
\<close>

theorem move_stop_frames:
  "move s w dir rate junk =
     (let r = send_command s w
                [0x50, 0x02,
                 (case dir of CELESTRON_N \<Rightarrow> 0x11 | CELESTRON_S \<Rightarrow> 0x11
                  | CELESTRON_W \<Rightarrow> 0x10 | CELESTRON_E \<Rightarrow> 0x10),
                 (case dir of CELESTRON_N \<Rightarrow> 0x24 | CELESTRON_S \<Rightarrow> 0x25
                  | CELESTRON_W \<Rightarrow> 0x24 | CELESTRON_E \<Rightarrow> 0x25),
                 of_int (rate + 1), 0x00, 0x00, 0x00]
                8 (response_array junk) 1
      in (fst r \<noteq> 0, snd (snd r)))
   \<and> stop s w dir junk =
     (let r = send_command s w
                [0x50, 0x02,
                 (case dir of CELESTRON_N \<Rightarrow> 0x11 | CELESTRON_S \<Rightarrow> 0x11
                  | CELESTRON_W \<Rightarrow> 0x10 | CELESTRON_E \<Rightarrow> 0x10),
                 0x24, 0x00, 0x00, 0x00, 0x00]
                8 (response_array junk) 1
      in (fst r \<noteq> 0, snd (snd r)))"
  by (cases dir)
     (simp_all add: move_def stop_def send_passthrough_def axis_frame Let_def
        CELESTRON_DEV_DEC_def CELESTRON_DEV_RA_def)

text \<open>C6 as stated fails for \<^verbatim>\<open>stop\<close>: stopping South writes sub-command \<open>0x24\<close>, not
  \<open>0x25\<close>.\<close>

theorem stop_south_counterexample:
  "trace (snd (stop \<lparr>m_fd = 3, m_connected = True\<rparr>
                  \<lparr>opens = [], writes = [], replies = [[Rx_data [0x23]]], trace = []\<rparr>
                  CELESTRON_S (\<lambda>i. 0)))
     = [Sys_tcflush 3, Sys_write 3 [0x50, 0x02, 0x11, 0x24, 0x00, 0x00, 0x00, 0x00],
        Sys_select 3 5, Sys_read 3 1]
   \<and> Sys_write 3 [0x50, 0x02, 0x11, 0x25, 0x00, 0x00, 0x00, 0x00]
       \<notin> set (trace (snd (stop \<lparr>m_fd = 3, m_connected = True\<rparr>
                  \<lparr>opens = [], writes = [], replies = [[Rx_data [0x23]]], trace = []\<rparr>
                  CELESTRON_S (\<lambda>i. 0))))"
  by (simp add: stop_def send_passthrough_def axis_frame Let_def CELESTRON_DEV_DEC_def
      send_command_def next_reply_def drop_reply_def log_calls_def TIMEOUT_def)

subsection \<open>C7: connect and disconnect\<close>

lemma connect_rejects:
  assumes "m_fd s \<noteq> 0"
  shows "connect s w port junk = (False, s, w)"
  using assms by (simp add: connect_def)

lemma disconnect_keeps_fd: "m_fd (fst (disconnect s w)) = m_fd s"
  by (simp add: disconnect_def)

lemma disconnect_twice:
  "disconnect (fst (disconnect s w)) (snd (disconnect s w)) = disconnect s w"
  by (simp add: disconnect_def)

lemma connect_after_disconnect:
  assumes "m_fd s \<noteq> 0"
  shows "connect (fst (disconnect s w)) (snd (disconnect s w)) port junk
           = (False, fst (disconnect s w), snd (disconnect s w))"
  by (rule connect_rejects) (simp add: disconnect_keeps_fd assms)

lemma c_str_append_nul: "c_str (bs @ 0 # rest) = c_str bs"
  by (induction bs) (simp_all add: c_str_def)

lemma store_terminated:
  assumes "length bs < length resp"
  shows "store_at (store_bytes bs resp) (int (length bs)) 0 = bs @ 0 # drop (Suc (length bs)) resp"
proof -
  have "drop (length bs) resp = resp ! length bs # drop (Suc (length bs)) resp"
    using assms by (simp add: Cons_nth_drop_Suc)
  then have "(bs @ drop (length bs) resp)[length bs := 0] = bs @ 0 # drop (Suc (length bs)) resp"
    by (simp add: list_update_append)
  then show ?thesis
    using assms by (simp add: store_at_def store_bytes_def)
qed

lemma c_str_response:
  assumes "length bs < length resp"
  shows "c_str (store_at (store_bytes bs resp) (int (length bs)) 0) = c_str bs"
  by (simp add: store_terminated [OF assms] c_str_append_nul)

lemma checkConnection_unfold:
  "checkConnection s w junk =
     (let e1 = echo s w junk
      in if fst e1 then (True, snd e1)
         else (let e2 = echo s (log_calls [Sys_usleep 50000] (snd e1)) junk
               in if fst e2 then (True, snd e2)
                  else (False, log_calls [Sys_usleep 50000] (snd e2))))"
  by (simp add: checkConnection_def numeral_2_eq_2 Let_def)

lemma echo_answered:
  assumes "m_fd s \<noteq> 0" and "writes w = []" and "next_reply w = [Rx_data [0x78, 0x23]]"
  shows "echo s w junk
           = (True, log_calls [Sys_tcflush (m_fd s), Sys_write (m_fd s) [0x4B, 0x78],
                               Sys_select (m_fd s) 5, Sys_read (m_fd s) 2] (drop_reply w))"
proof -
  have c: "c_str (store_at (store_bytes [0x78, 0x23] (response_array junk)) 2 0) = [0x78, 0x23]"
    using c_str_response [of "[0x78, 0x23]" "response_array junk"]
    by (simp add: response_array_length c_str_Cons c_str_Nil)
  have w: "w\<lparr>writes := []\<rparr> = w"
    using assms(2) by (cases w) simp
  show ?thesis
    using assms c by (simp add: echo_def send_command_def Let_def TIMEOUT_def ascii_def w)
qed

text \<open>
  C7. The claim: after \<^verbatim>\<open>disconnect\<close> the session is disconnected again, so that a later
  \<^verbatim>\<open>connect\<close> opens a new channel. \<^verbatim>\<open>connect\<close> tests \<open>m_fd \<noteq> 0\<close>, and \<^verbatim>\<open>disconnect\<close> closes
  the descriptor and clears \<open>m_connected\<close> but leaves \<open>m_fd\<close> as it is
  (\<open>disconnect_keeps_fd\<close>), so every later \<^verbatim>\<open>connect\<close> is rejected
  (\<open>connect_after_disconnect\<close>). On a new session, with a port that opens as descriptor 3
  and a mount that echoes \<open>x#\<close>: \<^verbatim>\<open>connect\<close> succeeds, \<^verbatim>\<open>disconnect\<close> closes descriptor 3, and
  the second \<^verbatim>\<open>connect\<close> returns false without a call of \<^verbatim>\<open>open\<close>.
\<close>

theorem reconnect_is_rejected:
  "connect (Celestron False)
     \<lparr>opens = [3, 4], writes = [], replies = [[Rx_data [0x78, 0x23]], [Rx_data [0x78, 0x23]]], trace = []\<rparr>
     ''/dev/ttyUSB0'' (\<lambda>i. 0)
   = (True, \<lparr>m_fd = 3, m_connected = True\<rparr>,
      \<lparr>opens = [4], writes = [], replies = [[Rx_data [0x78, 0x23]]],
         trace = [Sys_open ''/dev/ttyUSB0'', Sys_configure 3, Sys_tcflush 3,
                  Sys_write 3 [0x4B, 0x78], Sys_select 3 5, Sys_read 3 2]\<rparr>)
   \<and> disconnect \<lparr>m_fd = 3, m_connected = True\<rparr>
      \<lparr>opens = [4], writes = [], replies = [[Rx_data [0x78, 0x23]]],
         trace = [Sys_open ''/dev/ttyUSB0'', Sys_configure 3, Sys_tcflush 3,
                  Sys_write 3 [0x4B, 0x78], Sys_select 3 5, Sys_read 3 2]\<rparr>
   = (\<lparr>m_fd = 3, m_connected = False\<rparr>,
      \<lparr>opens = [4], writes = [], replies = [[Rx_data [0x78, 0x23]]],
         trace = [Sys_open ''/dev/ttyUSB0'', Sys_configure 3, Sys_tcflush 3,
                  Sys_write 3 [0x4B, 0x78], Sys_select 3 5, Sys_read 3 2, Sys_close 3]\<rparr>)
   \<and> connect \<lparr>m_fd = 3, m_connected = False\<rparr>
      \<lparr>opens = [4], writes = [], replies = [[Rx_data [0x78, 0x23]]],
         trace = [Sys_open ''/dev/ttyUSB0'', Sys_configure 3, Sys_tcflush 3,
                  Sys_write 3 [0x4B, 0x78], Sys_select 3 5, Sys_read 3 2, Sys_close 3]\<rparr>
      ''/dev/ttyUSB0'' (\<lambda>i. 0)
   = (False, \<lparr>m_fd = 3, m_connected = False\<rparr>,
      \<lparr>opens = [4], writes = [], replies = [[Rx_data [0x78, 0x23]]],
         trace = [Sys_open ''/dev/ttyUSB0'', Sys_configure 3, Sys_tcflush 3,
                  Sys_write 3 [0x4B, 0x78], Sys_select 3 5, Sys_read 3 2, Sys_close 3]\<rparr>)"
proof -
  have e: "echo \<lparr>m_fd = 3, m_connected = False\<rparr>
             \<lparr>opens = [4], writes = [], replies = [[Rx_data [0x78, 0x23]], [Rx_data [0x78, 0x23]]],
                trace = [Sys_open ''/dev/ttyUSB0'', Sys_configure 3]\<rparr> (\<lambda>i. 0)
           = (True, \<lparr>opens = [4], writes = [], replies = [[Rx_data [0x78, 0x23]]],
                trace = [Sys_open ''/dev/ttyUSB0'', Sys_configure 3, Sys_tcflush 3,
                  Sys_write 3 [0x4B, 0x78], Sys_select 3 5, Sys_read 3 2]\<rparr>)"
    by (subst echo_answered) (simp_all add: next_reply_def drop_reply_def log_calls_def)
  show ?thesis
    by (simp add: connect_def Celestron_def sys_open_def checkConnection_unfold e
        log_calls_def Let_def disconnect_def)
qed

subsection \<open>C9: goto\<close>

lemma fmt_08X_zero: "fmt_08X 0 = ascii ''00000000''"
  by (simp add: fmt_08X_def hex_digit_def ascii_def)

lemma dd2pnex_zero: "dd2pnex 0 = 0"
  by (simp add: dd2pnex_def c_trunc_def Let_def binary64_zero)

text \<open>Over an open channel the polling loop ends: every poll that finds the mount
  slewing has consumed one of the finitely many replies of the line.\<close>

lemma send_command_replies:
  "replies (snd (snd (send_command s w cmd cmd_len resp n)))
     = (if m_fd s \<noteq> 0 then tl (replies w) else replies w)"
  by (simp add: send_command_def Let_def log_calls_def drop_reply_def split: list.splits)

lemma send_command_needs_reply:
  assumes "m_fd s \<noteq> 0" and "0 < n" and "fst (send_command s w cmd cmd_len resp n) \<noteq> 0"
  shows "replies w \<noteq> []"
proof
  assume "replies w = []"
  then have "next_reply w = []" by (simp add: next_reply_def)
  with assms show False by (simp add: send_command_def Let_def)
qed

lemma isSlewing_consumes:
  assumes "m_fd s \<noteq> 0" and "fst (isSlewing s w junk)"
  shows "length (replies (snd (isSlewing s w junk))) < length (replies w)"
proof -
  have "fst (send_command s w (ascii ''L'') 1 (response_array junk) 2) \<noteq> 0"
    using assms(2) by (auto simp: isSlewing_def Let_def split: if_splits)
  then have "replies w \<noteq> []"
    using send_command_needs_reply [OF assms(1), of 2] by simp
  then show ?thesis
    using assms(1) by (simp add: isSlewing_def Let_def send_command_replies)
qed

lemma getRADec_replies:
  "length (replies (snd (snd (snd (getRADec s w ra dec junk))))) \<le> length (replies w)"
  by (simp add: getRADec_def Let_def send_command_replies)

lemma getAzAlt_replies:
  "length (replies (snd (snd (snd (getAzAlt s w az alt junk))))) \<le> length (replies w)"
  by (simp add: getAzAlt_def Let_def send_command_replies)

lemma log_calls_replies: "replies (log_calls cs w) = replies w"
  by (simp add: log_calls_def)

lemma gotoRADec_loop_returns:
  assumes "m_fd s \<noteq> 0"
  shows "gotoRADec_loop s junk k (w, ra, dec) \<noteq> None"
proof (induction "length (replies w)" arbitrary: w ra dec k rule: less_induct)
  case less
  show ?case
  proof (cases "fst (isSlewing s w (junk k))")
    case False
    then show ?thesis
      by (subst gotoRADec_loop.simps) (simp add: Let_def)
  next
    case True
    define w1 where "w1 = log_calls [Sys_usleep 1000] (snd (isSlewing s w (junk k)))"
    define g where "g = getRADec s w1 ra dec (junk (k + 1))"
    have "length (replies (snd (snd (snd g)))) \<le> length (replies w1)"
      unfolding g_def by (rule getRADec_replies)
    also have "\<dots> < length (replies w)"
      unfolding w1_def log_calls_replies by (rule isSlewing_consumes [OF assms True])
    finally have "gotoRADec_loop s junk (k + 2) (snd (snd (snd g)), fst (snd g), fst (snd (snd g)))
        \<noteq> None"
      by (rule less)
    with True show ?thesis
      by (subst gotoRADec_loop.simps) (simp add: Let_def g_def w1_def)
  qed
qed

lemma gotoRADec_returns:
  assumes "m_fd s \<noteq> 0"
  shows "gotoRADec s w ra dec ra0 dec0 junk \<noteq> None"
  using gotoRADec_loop_returns [OF assms]
  by (simp add: gotoRADec_def split: option.splits)

lemma gotoAzAlt_loop_returns:
  assumes "m_fd s \<noteq> 0"
  shows "gotoAzAlt_loop s junk k (w, ra, dec) \<noteq> None"
proof (induction "length (replies w)" arbitrary: w ra dec k rule: less_induct)
  case less
  show ?case
  proof (cases "fst (isSlewing s w (junk k))")
    case False
    then show ?thesis
      by (subst gotoAzAlt_loop.simps) (simp add: Let_def)
  next
    case True
    define w1 where "w1 = log_calls [Sys_usleep 1000] (snd (isSlewing s w (junk k)))"
    define g where "g = getAzAlt s w1 ra dec (junk (k + 1))"
    have "length (replies (snd (snd (snd g)))) \<le> length (replies w1)"
      unfolding g_def by (rule getAzAlt_replies)
    also have "\<dots> < length (replies w)"
      unfolding w1_def log_calls_replies by (rule isSlewing_consumes [OF assms True])
    finally have "gotoAzAlt_loop s junk (k + 2) (snd (snd (snd g)), fst (snd g), fst (snd (snd g)))
        \<noteq> None"
      by (rule less)
    with True show ?thesis
      by (subst gotoAzAlt_loop.simps) (simp add: Let_def g_def w1_def)
  qed
qed

lemma gotoAzAlt_returns:
  assumes "m_fd s \<noteq> 0"
  shows "gotoAzAlt s w ra dec ra0 dec0 junk \<noteq> None"
  using gotoAzAlt_loop_returns [OF assms]
  by (simp add: gotoAzAlt_def split: option.splits)

text \<open>
  C9. The claim: the goto operations poll until the mount is idle, read the position
  back, and report success exactly when the position read back equals the target. The
  source reads the position inside the polling loop only. Over an open channel, with a
  mount that acknowledges the slew and is idle at the first poll, no position query is
  sent, and the value returned compares the target with the locals \<open>ra0\<close>, \<open>dec0\<close> that
  were never assigned. \<^verbatim>\<open>gotoAzAlt\<close> does the same.
\<close>

theorem gotoRADec_idle_at_first_poll:
  "gotoRADec \<lparr>m_fd = 3, m_connected = True\<rparr>
     \<lparr>opens = [], writes = [], replies = [[Rx_data [0x23]], [Rx_data [0x30, 0x23]]], trace = []\<rparr>
     0 0 ra0 dec0 (\<lambda>k i. 0)
   = Some (ra0 = 0 \<and> dec0 = 0,
      \<lparr>opens = [], writes = [], replies = [],
         trace = [Sys_tcflush 3, Sys_write 3 (ascii ''r00000000,00000000''),
                  Sys_select 3 5, Sys_read 3 1,
                  Sys_tcflush 3, Sys_write 3 (ascii ''L''), Sys_select 3 5, Sys_read 3 2]\<rparr>)
   \<and> gotoAzAlt \<lparr>m_fd = 3, m_connected = True\<rparr>
     \<lparr>opens = [], writes = [], replies = [[Rx_data [0x23]], [Rx_data [0x30, 0x23]]], trace = []\<rparr>
     0 0 ra0 dec0 (\<lambda>k i. 0)
   = Some (ra0 = 0 \<and> dec0 = 0,
      \<lparr>opens = [], writes = [], replies = [],
         trace = [Sys_tcflush 3, Sys_write 3 (ascii ''b00000000,00000000''),
                  Sys_select 3 5, Sys_read 3 1,
                  Sys_tcflush 3, Sys_write 3 (ascii ''L''), Sys_select 3 5, Sys_read 3 2]\<rparr>)"
proof -
  have ra: "gotoRADec_loop \<lparr>m_fd = 3, m_connected = True\<rparr> (\<lambda>k i. 0) 1
              (\<lparr>opens = [], writes = [], replies = [[Rx_data [0x30, 0x23]]],
                  trace = [Sys_tcflush 3, Sys_write 3 (ascii ''r00000000,00000000''),
                           Sys_select 3 5, Sys_read 3 1]\<rparr>, ra0, dec0)
            = Some (\<lparr>opens = [], writes = [], replies = [],
                  trace = [Sys_tcflush 3, Sys_write 3 (ascii ''r00000000,00000000''),
                           Sys_select 3 5, Sys_read 3 1,
                           Sys_tcflush 3, Sys_write 3 (ascii ''L''), Sys_select 3 5,
                           Sys_read 3 2]\<rparr>, ra0, dec0)"
    by (subst gotoRADec_loop.simps)
       (simp add: isSlewing_def send_command_def response_array_zero next_reply_def
          drop_reply_def log_calls_def TIMEOUT_def store_bytes_def store_at_def Let_def
          ascii_def)
  have az: "gotoAzAlt_loop \<lparr>m_fd = 3, m_connected = True\<rparr> (\<lambda>k i. 0) 1
              (\<lparr>opens = [], writes = [], replies = [[Rx_data [0x30, 0x23]]],
                  trace = [Sys_tcflush 3, Sys_write 3 (ascii ''b00000000,00000000''),
                           Sys_select 3 5, Sys_read 3 1]\<rparr>, ra0, dec0)
            = Some (\<lparr>opens = [], writes = [], replies = [],
                  trace = [Sys_tcflush 3, Sys_write 3 (ascii ''b00000000,00000000''),
                           Sys_select 3 5, Sys_read 3 1,
                           Sys_tcflush 3, Sys_write 3 (ascii ''L''), Sys_select 3 5,
                           Sys_read 3 2]\<rparr>, ra0, dec0)"
    by (subst gotoAzAlt_loop.simps)
       (simp add: isSlewing_def send_command_def response_array_zero next_reply_def
          drop_reply_def log_calls_def TIMEOUT_def store_bytes_def store_at_def Let_def
          ascii_def)
  have slew_ra: "slewRADec \<lparr>m_fd = 3, m_connected = True\<rparr>
       \<lparr>opens = [], writes = [], replies = [[Rx_data [0x23]], [Rx_data [0x30, 0x23]]],
          trace = []\<rparr> 0 0 (\<lambda>i. 0)
     = (True, \<lparr>opens = [], writes = [], replies = [[Rx_data [0x30, 0x23]]],
                  trace = [Sys_tcflush 3, Sys_write 3 (ascii ''r00000000,00000000''),
                           Sys_select 3 5, Sys_read 3 1]\<rparr>)"
    by (simp add: slewRADec_def coords_cmd_def binary64_zero dd2pnex_zero fmt_08X_zero send_command_def
        response_array_zero next_reply_def drop_reply_def log_calls_def TIMEOUT_def
        store_bytes_def store_at_def Let_def ascii_def)
  have slew_az: "slewAzAlt \<lparr>m_fd = 3, m_connected = True\<rparr>
       \<lparr>opens = [], writes = [], replies = [[Rx_data [0x23]], [Rx_data [0x30, 0x23]]],
          trace = []\<rparr> 0 0 (\<lambda>i. 0)
     = (True, \<lparr>opens = [], writes = [], replies = [[Rx_data [0x30, 0x23]]],
                  trace = [Sys_tcflush 3, Sys_write 3 (ascii ''b00000000,00000000''),
                           Sys_select 3 5, Sys_read 3 1]\<rparr>)"
    by (simp add: slewAzAlt_def coords_cmd_def dd2pnex_zero fmt_08X_zero send_command_def
        response_array_zero next_reply_def drop_reply_def log_calls_def TIMEOUT_def
        store_bytes_def store_at_def Let_def ascii_def)
  show ?thesis
    unfolding gotoRADec_def gotoAzAlt_def slew_ra slew_az snd_conv ra az by simp
qed

subsection \<open>C10: a session that never connected\<close>

lemma never_connected_ops:
  assumes "m_fd s = 0"
  shows "hibernate s w junk = (True, w)"
    and "wakeup s w junk = (True, w)"
    and "abort s w junk = (True, w)"
    and "setTrackMode s w mode junk = (True, w)"
    and "slewRADec s w ra dec junk = (True, w)"
    and "slewAzAlt s w ra dec junk = (True, w)"
    and "sync s w ra dec junk = (True, w)"
  by (simp_all add: hibernate_def wakeup_def abort_def setTrackMode_def slewRADec_def
      slewAzAlt_def sync_def send_command_closed [OF assms] Let_def coords_cmd_def)

lemma never_connected_passthrough_ops:
  assumes "m_fd s = 0"
  shows "move s w dir rate junk = (True, w)"
    and "stop s w dir junk = (True, w)"
    and "sendPulse s w dir prate duration_csec junk = (1, w)"
    and "getPulseStatus s w dir pulse_state junk = (True, junk 0 \<noteq> 0, w)"
    and "fst (getDevFirmware s w dev version sz junk)"
    and "snd (snd (getDevFirmware s w dev version sz junk)) = w"
  by (simp_all add: move_def stop_def sendPulse_def getPulseStatus_def getDevFirmware_def
      send_passthrough_closed [OF assms] Let_def store_at_response_array)

lemma never_connected_queries:
  assumes "m_fd s = 0"
  shows "fst (getVersion s w version sz junk)"
    and "snd (snd (getVersion s w version sz junk)) = w"
    and "getVariant s w variant junk = (True, junk 0, w)"
    and "fst (getModel s w model sz isGem junk)"
    and "snd (snd (snd (getModel s w model sz isGem junk))) = w"
    and "getTrackMode s w tmode junk = (True, junk 0, w)"
    and "fst (getRADec s w ra dec junk)"
    and "snd (snd (snd (getRADec s w ra dec junk))) = w"
    and "fst (getAzAlt s w ra dec junk)"
    and "snd (snd (snd (getAzAlt s w ra dec junk))) = w"
  by (simp_all add: getVersion_def getVariant_def getModel_def getTrackMode_def getRADec_def
      getAzAlt_def send_command_closed [OF assms] Let_def store_at_response_array)

lemma never_connected_buffer_tests:
  assumes "m_fd s = 0"
  shows "echo s w junk = (junk 0 = 0x78 \<and> junk 1 = 0x23, w)"
    and "checkAligned s w junk = (junk 0 = 0x01, w)"
    and "isSlewing s w junk = (junk 0 \<noteq> 0x30, w)"
  by (auto simp: echo_def checkAligned_def isSlewing_def send_command_closed [OF assms] Let_def
      store_at_response_array c_str_Cons c_str_Nil ascii_def)

lemma never_connected_setLocation:
  assumes "m_fd s = 0"
  shows "setLocation s w longitude latitude junk = None
       \<or> setLocation s w longitude latitude junk = Some (True, w)"
  by (simp add: setLocation_def send_command_closed [OF assms] Let_def
      split: option.splits prod.splits)

text \<open>
  C10, as amended. While no channel is open (\<open>m_fd = 0\<close>), \<^verbatim>\<open>send_command\<close> makes no system
  call (the world is unchanged), returns the expected response length (1 for the length
  0), and writes only the terminator into the response array. So the operations that
  test nothing but this value succeed: \<^verbatim>\<open>hibernate\<close>, \<^verbatim>\<open>wakeup\<close>, \<^verbatim>\<open>abort\<close>, \<^verbatim>\<open>setTrackMode\<close>,
  the slews and \<^verbatim>\<open>sync\<close>, \<^verbatim>\<open>move\<close>, \<^verbatim>\<open>stop\<close>, \<^verbatim>\<open>sendPulse\<close>, \<^verbatim>\<open>getPulseStatus\<close>, the queries of
  version, variant, model, firmware, track mode and position, and \<^verbatim>\<open>setLocation\<close> where it
  is defined. \<^verbatim>\<open>echo\<close>, \<^verbatim>\<open>checkAligned\<close> and \<^verbatim>\<open>isSlewing\<close> return what the uninitialised bytes
  of the array say.
\<close>

theorem never_connected_session:
  assumes "m_fd s = 0"
  shows "send_command s w cmd cmd_len resp n
           = (if n = 0 then 1 else n, if n = 0 then resp else store_at resp n 0, w)
       \<and> hibernate s w junk = (True, w)
       \<and> wakeup s w junk = (True, w)
       \<and> abort s w junk = (True, w)
       \<and> setTrackMode s w mode junk = (True, w)
       \<and> slewRADec s w ra dec junk = (True, w)
       \<and> slewAzAlt s w ra dec junk = (True, w)
       \<and> sync s w ra dec junk = (True, w)
       \<and> move s w dir rate junk = (True, w)
       \<and> stop s w dir junk = (True, w)
       \<and> sendPulse s w dir prate duration_csec junk = (1, w)
       \<and> getPulseStatus s w dir pulse_state junk = (True, junk 0 \<noteq> 0, w)
       \<and> fst (getDevFirmware s w dev version sz junk)
       \<and> snd (snd (getDevFirmware s w dev version sz junk)) = w
       \<and> fst (getVersion s w version sz junk)
       \<and> snd (snd (getVersion s w version sz junk)) = w
       \<and> getVariant s w variant junk = (True, junk 0, w)
       \<and> fst (getModel s w model sz isGem junk)
       \<and> snd (snd (snd (getModel s w model sz isGem junk))) = w
       \<and> getTrackMode s w tmode junk = (True, junk 0, w)
       \<and> fst (getRADec s w ra0 dec0 junk)
       \<and> snd (snd (snd (getRADec s w ra0 dec0 junk))) = w
       \<and> fst (getAzAlt s w ra0 dec0 junk)
       \<and> snd (snd (snd (getAzAlt s w ra0 dec0 junk))) = w
       \<and> (setLocation s w longitude latitude junk = None
            \<or> setLocation s w longitude latitude junk = Some (True, w))
       \<and> echo s w junk = (junk 0 = 0x78 \<and> junk 1 = 0x23, w)
       \<and> checkAligned s w junk = (junk 0 = 0x01, w)
       \<and> isSlewing s w junk = (junk 0 \<noteq> 0x30, w)"
  using never_connected_setLocation [OF assms, of w longitude latitude junk]
  by (simp add: send_command_closed [OF assms] never_connected_ops [OF assms]
      never_connected_passthrough_ops [OF assms] never_connected_queries [OF assms]
      never_connected_buffer_tests [OF assms])

text \<open>At the session the constructor makes, with a stack that holds zeros.\<close>

theorem never_connected_session_witness:
  "m_fd (Celestron False) = 0
   \<and> send_command (Celestron False) \<lparr>opens = [3], writes = [], replies = [[Rx_data [0x78, 0x23]]], trace = []\<rparr>
        [0x4B, 0x78] 2 [0x11, 0x22, 0x33, 0x44] 2
       = (2, [0x11, 0x22, 0x00, 0x44],
          \<lparr>opens = [3], writes = [], replies = [[Rx_data [0x78, 0x23]]], trace = []\<rparr>)
   \<and> abort (Celestron False) \<lparr>opens = [3], writes = [], replies = [[Rx_data [0x78, 0x23]]], trace = []\<rparr>
        (\<lambda>i. 0)
       = (True, \<lparr>opens = [3], writes = [], replies = [[Rx_data [0x78, 0x23]]], trace = []\<rparr>)
   \<and> echo (Celestron False) \<lparr>opens = [3], writes = [], replies = [[Rx_data [0x78, 0x23]]], trace = []\<rparr>
        (\<lambda>i. 0)
       = (False, \<lparr>opens = [3], writes = [], replies = [[Rx_data [0x78, 0x23]]], trace = []\<rparr>)"
proof -
  have h: "m_fd (Celestron False) = 0" by (simp add: Celestron_def)
  show ?thesis
    using never_connected_session [OF h,
        where w = "\<lparr>opens = [3], writes = [], replies = [[Rx_data [0x78, 0x23]]], trace = []\<rparr>"
          and cmd = "[0x4B, 0x78]" and cmd_len = 2 and resp = "[0x11, 0x22, 0x33, 0x44]"
          and n = 2 and junk = "\<lambda>i. 0"] h
    by (simp add: store_at_def)
qed

text \<open>C10 as stated fails: on a session that never connected, with a stack that holds
  zeros, \<^verbatim>\<open>echo\<close> and \<^verbatim>\<open>checkAligned\<close> return false.\<close>

theorem never_connected_echo_counterexample:
  "\<not> fst (echo (Celestron False) \<lparr>opens = [], writes = [], replies = [], trace = []\<rparr> (\<lambda>i. 0))
   \<and> \<not> fst (checkAligned (Celestron False) \<lparr>opens = [], writes = [], replies = [], trace = []\<rparr> (\<lambda>i. 0))"
proof -
  have h: "m_fd (Celestron False) = 0" by (simp add: Celestron_def)
  show ?thesis
    by (simp add: never_connected_buffer_tests [OF h])
qed

end
